theory Spec2Isabelle
  imports Main "HOL-Library.Sublist"
begin

section \<open>Python values\<close>

text \<open>
  A Python \<open>str\<close> is modelled as the list of its characters, with the characters
  that fit in eight bits (code points below 256).  The exceptions of the program are the
  constructors of one datatype.  \<open>PyException\<close> is the plain
  \<open>Exception(message)\<close> that the program raises itself, \<open>WebDriverException\<close>
  stands for any other failure reported by the browser driver.  All of them derive from
  Python's \<open>Exception\<close> except \<open>KeyboardInterrupt\<close>, which a handler
  \<open>except Exception\<close> lets pass.
\<close>

datatype exc =
    TimeoutException
  | StaleElementReferenceException
  | ValueError string
  | PyException string
  | FileNotFoundError string
  | OSError string
  | IndexError
  | WebDriverException string
  | KeyboardInterrupt

definition is_Exception :: "exc \<Rightarrow> bool" where
  "is_Exception e = (e \<noteq> KeyboardInterrupt)"

text \<open>Truth value of an optional string: \<open>None\<close> and the empty string are falsy.\<close>

definition falsy :: "string option \<Rightarrow> bool" where
  "falsy v = (case v of None \<Rightarrow> True | Some s \<Rightarrow> s = [])"

text \<open>\<open>str.isspace\<close> on one character (code points below 256).\<close>

definition isspace :: "char \<Rightarrow> bool" where
  "isspace c = (let n = (of_char c :: nat)
                in (9 \<le> n \<and> n \<le> 13) \<or> (28 \<le> n \<and> n \<le> 32) \<or> n = 133 \<or> n = 160)"

text \<open>\<open>str.strip()\<close>: leading and trailing whitespace removed.\<close>

definition strip :: "string \<Rightarrow> string" where
  "strip s = rev (dropWhile isspace (rev (dropWhile isspace s)))"

text \<open>\<open>str.lower()\<close>: the ASCII capitals and the Latin-1 capitals move up by 32.\<close>

definition lower_char :: "char \<Rightarrow> char" where
  "lower_char c = (let n = (of_char c :: nat)
                   in if (65 \<le> n \<and> n \<le> 90) \<or> (192 \<le> n \<and> n \<le> 222 \<and> n \<noteq> 215)
                      then char_of (n + 32) else c)"

definition lower :: "string \<Rightarrow> string" where
  "lower s = map lower_char s"

text \<open>\<open>sep.join(xs)\<close>.\<close>

fun join :: "string \<Rightarrow> string list \<Rightarrow> string" where
  "join sep [] = []"
| "join sep [x] = x"
| "join sep (x # y # ys) = x @ sep @ join sep (y # ys)"

text \<open>\<open>str(n)\<close> for an integer: decimal digits, with a minus sign when negative.\<close>

fun str_nat :: "nat \<Rightarrow> string" where
  "str_nat n = (if n < 10 then [char_of (48 + n)]
                else str_nat (n div 10) @ [char_of (48 + n mod 10)])"

declare str_nat.simps [simp del]


section \<open>Paths (pathlib, POSIX flavour)\<close>

text \<open>
  A path is its list of components and the mark of an absolute path.  Parsing a string
  splits it at the slashes and drops the empty components and the components \<open>.\<close>;
  a component \<open>..\<close> is kept.  (A leading double slash is read as a single one.)
\<close>

record path =
  p_absolute :: bool
  p_parts :: "string list"

text \<open>\<open>s.split(c)\<close>.\<close>

fun split_on :: "char \<Rightarrow> string \<Rightarrow> string list" where
  "split_on c [] = [[]]"
| "split_on c (x # xs) =
     (if x = c then [] # split_on c xs
      else (case split_on c xs of
              [] \<Rightarrow> [[x]]
            | p # ps \<Rightarrow> (x # p) # ps))"

definition parse_path :: "string \<Rightarrow> path" where
  "parse_path s =
     \<lparr>p_absolute = (case s of [] \<Rightarrow> False | x # _ \<Rightarrow> x = CHR ''/''),
      p_parts = filter (\<lambda>c. c \<noteq> [] \<and> c \<noteq> ''.'') (split_on (CHR ''/'') s)\<rparr>"

text \<open>\<open>p / s\<close> for a string \<open>s\<close>: an absolute \<open>s\<close> replaces \<open>p\<close>.\<close>

definition joinpath :: "path \<Rightarrow> string \<Rightarrow> path" where
  "joinpath p s =
     (let q = parse_path s
      in if p_absolute q then q else p\<lparr>p_parts := p_parts p @ p_parts q\<rparr>)"

text \<open>The path of a directory entry, as \<open>iterdir\<close> builds it.\<close>

definition child :: "path \<Rightarrow> string \<Rightarrow> path" where
  "child p nm = p\<lparr>p_parts := p_parts p @ [nm]\<rparr>"

text \<open>\<open>p.name\<close> and \<open>p.parent\<close>.\<close>

definition path_name :: "path \<Rightarrow> string" where
  "path_name p = (case p_parts p of [] \<Rightarrow> [] | x # xs \<Rightarrow> last (x # xs))"

definition path_parent :: "path \<Rightarrow> path" where
  "path_parent p = p\<lparr>p_parts := butlast (p_parts p)\<rparr>"

text \<open>\<open>s.rfind(c)\<close>: the index of the last occurrence, \<open>None\<close> for Python's \<open>-1\<close>.\<close>

fun rfind :: "char \<Rightarrow> string \<Rightarrow> nat option" where
  "rfind c [] = None"
| "rfind c (x # xs) =
     (case rfind c xs of
        Some i \<Rightarrow> Some (Suc i)
      | None \<Rightarrow> if x = c then Some 0 else None)"

text \<open>
  \<open>Path.suffix\<close> of a file name: the part from the last dot on, unless that dot is the
  first or the last character.
\<close>

definition path_suffix :: "string \<Rightarrow> string" where
  "path_suffix nm =
     (case rfind (CHR ''.'') nm of
        None \<Rightarrow> []
      | Some i \<Rightarrow> if 0 < i \<and> i + 1 < length nm then drop i nm else [])"


section \<open>Configuration (config/settings.py)\<close>

record settings =
  JUMPCLOUD_EMAIL :: "string option"
  JUMPCLOUD_PASSWORD :: "string option"
  JIRA_SEARCH_URL :: "string option"
  JQL_QUERY :: "string option"
  DOWNLOADS_FOLDER :: path
  LOGS_FOLDER :: path

definition SELENIUM_TIMEOUT :: nat where
  "SELENIUM_TIMEOUT = 20"


definition required_vars :: "settings \<Rightarrow> (string \<times> string option) list" where
  "required_vars s =
     [(''JC_USERNAME'', JUMPCLOUD_EMAIL s),
      (''JC_PASSWORD'', JUMPCLOUD_PASSWORD s),
      (''JIRA_SEARCH_URL'', JIRA_SEARCH_URL s),
      (''JQL_QUERY'', JQL_QUERY s)]"

text \<open>The loop of \<open>validate_credentials\<close> that appends the name of each falsy variable.\<close>

fun collect_missing :: "(string \<times> string option) list \<Rightarrow> string list \<Rightarrow> string list" where
  "collect_missing [] missing_vars = missing_vars"
| "collect_missing ((var_name, var_value) # rest) missing_vars =
     collect_missing rest (if falsy var_value then missing_vars @ [var_name] else missing_vars)"

definition validate_credentials :: "settings \<Rightarrow> exc + bool" where
  "validate_credentials s =
     (let missing_vars = collect_missing (required_vars s) []
      in if missing_vars \<noteq> []
         then Inl (ValueError (''Missing required environment variables: '' @ join '', '' missing_vars))
         else Inr True)"

text \<open>
  \<open>JiraAutomationWorkflow._validate_configuration\<close> (main.py): the \<open>ValueError\<close> is
  logged and raised again; nothing else is caught.
\<close>

definition validate_configuration :: "settings \<Rightarrow> exc + unit" where
  "validate_configuration s =
     (case validate_credentials s of
        Inl (ValueError m) \<Rightarrow> Inl (ValueError m)
      | Inl e \<Rightarrow> Inl e
      | Inr _ \<Rightarrow> Inr ())"

section \<open>Query validation (src/jira/operations.py)\<close>

definition jql_keywords :: "string list" where
  "jql_keywords = [''project'', ''status'', ''assignee'', ''created'', ''updated'',
                   ''reporter'', ''priority'']"

text \<open>
  \<open>JiraOperations.validate_query_syntax\<close>.  The argument may be \<open>None\<close>; the test
  \<open>not jql_query or not jql_query.strip()\<close> answers \<open>False\<close> for it.  The operator
  \<open>in\<close> on strings is the contiguous-substring test \<open>sublist\<close>.
\<close>

definition validate_query_syntax :: "string option \<Rightarrow> bool" where
  "validate_query_syntax jql_query =
     (case jql_query of
        None \<Rightarrow> False
      | Some q \<Rightarrow>
          if q = [] \<or> strip q = [] then False
          else let query = strip q;
                   has_keyword = list_ex (\<lambda>keyword. sublist (lower keyword) (lower query)) jql_keywords;
                   single_quotes = count_list query (CHR 0x27);
                   double_quotes = count_list query (CHR 0x22);
                   balanced_quotes = (single_quotes mod 2 = 0 \<and> double_quotes mod 2 = 0)
               in has_keyword \<and> balanced_quotes)"

section \<open>The world the program runs in\<close>

text \<open>
  The program talks to a browser, a file system and the clock.  They are gathered in one
  record that every operation takes and returns.

  \<^item> \<open>w_outcomes\<close> is the script of the browser: the outcome of each successive
    interaction, \<open>None\<close> when it succeeds and \<open>Some e\<close> when it raises \<open>e\<close>.  An
    interaction is one guarded block of driver calls (the body of one \<open>try\<close>, or one
    call outside any); the handlers of the program only look at the exception that
    leaves the block.  A script that is used up continues with successes.  A
    \<open>KeyboardInterrupt\<close> reaches the program as the outcome of an interaction.
  \<^item> \<open>w_windows\<close> are the window lists that successive reads of
    \<open>driver.window_handles\<close> see; after the last of them the windows stay as they are.
    A wait with a timeout of \<open>t\<close> seconds polls \<open>Suc (w_patience t)\<close> times before its
    deadline.  \<open>w_current\<close> is the handle of the focused window.
  \<^item> \<open>w_fs\<close> maps a directory, given by its components from the root, to its
    listing in the order \<open>iterdir\<close> yields it; \<open>w_cwd\<close> is the working directory.
    \<open>w_vanish\<close> names the files that another process removes between the scan of a
    directory and the rename.  \<open>w_now\<close> is what \<open>datetime.now()\<close> returns and
    \<open>w_time\<close> what \<open>time.time()\<close> returns; time stamps are counted in nanoseconds.
  \<^item> \<open>w_browser\<close> tells whether a browser process is running,
    \<open>w_manager_driver\<close> and \<open>w_workflow_driver\<close> whether the attribute \<open>driver\<close> of
    the \<open>WebDriverManager\<close> and of the workflow object is set.
  \<^item> \<open>w_trace\<close> records, in order, what the program does to them.
\<close>

datatype condition = Visibility | Presence | Clickable

datatype event =
    Sleep nat  \<comment> \<open>\<open>time.sleep\<close>, in milliseconds\<close>
  | StartBrowser
  | Get string
  | WaitUntil condition string string nat  \<comment> \<open>condition, by, value, timeout in seconds\<close>
  | WaitPageLoad nat
  | WaitWindows nat nat  \<comment> \<open>\<open>number_of_windows_to_be(n)\<close>, timeout in seconds\<close>
  | ClickScript string
  | SendKeys string string bool  \<comment> \<open>value, keys, clear_first\<close>
  | SwitchTo string
  | Quit
  | Screenshot string
  | ListDir path
  | Rename path path
  | Unlink path
  | LogClicked string nat  \<comment> \<open>"Clicked on element: 'value' on attempt n"\<close>
  | LogStale nat int string  \<comment> \<open>"StaleElementReferenceException on attempt n/retries for 'value'"\<close>
  | LogClickTimeout string  \<comment> \<open>"Timed out waiting for element to be clickable: 'value'"\<close>

record window =
  handle :: string
  title :: string

record entry =
  e_name :: string
  e_is_file :: bool
  e_mtime :: int  \<comment> \<open>\<open>stat().st_mtime\<close>\<close>

record datetime =
  year :: nat
  month :: nat
  day :: nat
  hour :: nat
  minute :: nat
  second :: nat

record world =
  w_outcomes :: "exc option list"
  w_windows :: "window list list"
  w_patience :: "nat \<Rightarrow> nat"
  w_current :: string
  w_fs :: "string list \<rightharpoonup> entry list"
  w_cwd :: "string list"
  w_vanish :: "string list"
  w_now :: datetime
  w_time :: int
  w_browser :: bool
  w_manager_driver :: bool
  w_workflow_driver :: bool
  w_trace :: "event list"

type_synonym 'a action = "world \<Rightarrow> (exc + 'a) \<times> world"

definition emit :: "event \<Rightarrow> world \<Rightarrow> world" where
  "emit e w = w\<lparr>w_trace := w_trace w @ [e]\<rparr>"

definition interact :: "world \<Rightarrow> exc option \<times> world" where
  "interact w = (case w_outcomes w of [] \<Rightarrow> (None, w) | r # rs \<Rightarrow> (r, w\<lparr>w_outcomes := rs\<rparr>))"

text \<open>Sequencing of two statements: an exception of the first skips the second.\<close>

definition then_do :: "'a action \<Rightarrow> ('a \<Rightarrow> 'b action) \<Rightarrow> 'b action" where
  "then_do m f w = (case m w of (Inl e, w1) \<Rightarrow> (Inl e, w1) | (Inr x, w1) \<Rightarrow> f x w1)"

definition sleep :: "nat \<Rightarrow> unit action" where
  "sleep ms w = (Inr (), emit (Sleep ms) w)"

text \<open>One read of \<open>driver.window_handles\<close>.\<close>

definition read_windows :: "world \<Rightarrow> window list \<times> world" where
  "read_windows w =
     (case w_windows w of
        [] \<Rightarrow> ([], w)
      | [ws] \<Rightarrow> (ws, w)
      | ws # later # rest \<Rightarrow> (ws, w\<lparr>w_windows := later # rest\<rparr>))"

text \<open>
  The directory that a path leads to, by its components from the root: the walk starts
  at the root or at the working directory, every directory on the way must exist, and
  \<open>..\<close> steps back to the parent.
\<close>

fun resolve_dir :: "(string list \<rightharpoonup> entry list) \<Rightarrow> string list \<Rightarrow> string list \<Rightarrow> string list option" where
  "resolve_dir fs at [] = (if fs at = None then None else Some at)"
| "resolve_dir fs at (c # cs) =
     (if fs at = None then None
      else if c = ''..'' then resolve_dir fs (butlast at) cs
      else resolve_dir fs (at @ [c]) cs)"

definition locate :: "world \<Rightarrow> path \<Rightarrow> string list option" where
  "locate w p = resolve_dir (w_fs w) (if p_absolute p then [] else w_cwd w) (p_parts p)"

definition listdir :: "world \<Rightarrow> path \<Rightarrow> entry list option" where
  "listdir w p = (case locate w p of None \<Rightarrow> None | Some d \<Rightarrow> w_fs w d)"

section \<open>Interaction primitives (src/automation/selenium_helpers.py)\<close>






text \<open>
  \<open>WebDriverWait(driver, timeout).until(EC.number_of_windows_to_be(n))\<close> with the given
  number of polls left: each poll reads the window handles; the first that sees exactly
  \<open>n\<close> windows ends the wait, and when none does the wait raises
  \<open>TimeoutException\<close>.
\<close>

fun until_number_of_windows :: "nat \<Rightarrow> nat \<Rightarrow> world \<Rightarrow> bool \<times> world" where
  "until_number_of_windows n 0 w = (False, w)"
| "until_number_of_windows n (Suc polls) w =
     (let (ws, w1) = read_windows w
      in if length ws = n then (True, w1) else until_number_of_windows n polls w1)"

text \<open>
  \<open>SeleniumHelpers.switch_to_new_tab\<close>.  After the wait the handles are read again;
  \<open>driver.window_handles[-1]\<close> raises \<open>IndexError\<close> on an empty list;
  \<open>driver.switch_to.window\<close> and \<open>driver.title\<close> are one interaction each.  The
  handler for \<open>TimeoutException\<close> prints and raises again.
\<close>

definition switch_to_new_tab :: "nat \<Rightarrow> string action" where
  "switch_to_new_tab timeout w =
     (case until_number_of_windows 2 (Suc (w_patience w timeout)) (emit (WaitWindows 2 timeout) w) of
        (False, w1) \<Rightarrow> (Inl TimeoutException, w1)
      | (True, w1) \<Rightarrow>
          (case read_windows w1 of
             ([], w2) \<Rightarrow> (Inl IndexError, w2)
           | (x # xs, w2) \<Rightarrow>
               (case interact (emit (SwitchTo (handle (last (x # xs)))) w2) of
                  (Some e, w3) \<Rightarrow> (Inl e, w3)
                | (None, w3) \<Rightarrow>
                    (case interact (w3\<lparr>w_current := handle (last (x # xs))\<rparr>) of
                       (Some e, w4) \<Rightarrow> (Inl e, w4)
                     | (None, w4) \<Rightarrow> (Inr (title (last (x # xs))), w4)))))"


section \<open>Download detector (src/utils/file_operations.py)\<close>

text \<open>\<open>s.endswith(suf)\<close>.\<close>

definition endswith :: "string \<Rightarrow> string \<Rightarrow> bool" where
  "endswith s suf = suffix suf s"

definition zfill :: "nat \<Rightarrow> string \<Rightarrow> string" where
  "zfill n s = replicate (n - length s) (CHR ''0'') @ s"

text \<open>\<open>strftime("%Y-%m-%d_%H-%M-%S")\<close>.\<close>

definition strftime :: "datetime \<Rightarrow> string" where
  "strftime t =
     zfill 4 (str_nat (year t)) @ ''-'' @ zfill 2 (str_nat (month t)) @ ''-'' @
     zfill 2 (str_nat (day t)) @ ''_'' @ zfill 2 (str_nat (hour t)) @ ''-'' @
     zfill 2 (str_nat (minute t)) @ ''-'' @ zfill 2 (str_nat (second t))"

text \<open>
  \<open>max(files, key=lambda f: f.stat().st_mtime)\<close>: the running maximum is replaced only
  by a strictly later file, so the first of several latest files wins.
\<close>

fun max_mtime :: "entry \<Rightarrow> entry list \<Rightarrow> entry" where
  "max_mtime best [] = best"
| "max_mtime best (f # fs) = max_mtime (if e_mtime best < e_mtime f then f else best) fs"

text \<open>
  \<open>FileOperations.find_latest_file\<close>.  A folder that does not exist or is not a
  directory has no listing.  The scan is taken as one step.
\<close>

definition find_latest_file :: "path \<Rightarrow> world \<Rightarrow> path option \<times> world" where
  "find_latest_file folder_path w =
     (case listdir w folder_path of
        None \<Rightarrow> (None, w)
      | Some listing \<Rightarrow>
          (let w1 = emit (ListDir folder_path) w;
               files = filter e_is_file listing;
               files = filter (\<lambda>f. \<not> endswith (e_name f) ''.crdownload'') files
           in (case files of
                 [] \<Rightarrow> (None, w1)
               | f # fs \<Rightarrow> (Some (child folder_path (e_name (max_mtime f fs))), w1))))"

text \<open>What other processes do to the directory between the scan and the rename.\<close>

definition others_act :: "path \<Rightarrow> world \<Rightarrow> world" where
  "others_act dir w =
     (case locate w dir of
        None \<Rightarrow> w
      | Some d \<Rightarrow>
          (case w_fs w d of
             None \<Rightarrow> w
           | Some listing \<Rightarrow>
               w\<lparr>w_fs := (w_fs w)(d \<mapsto> filter (\<lambda>f. e_name f \<notin> set (w_vanish w)) listing),
                 w_vanish := []\<rparr>))"

text \<open>
  \<open>Path.rename\<close> of a regular file: the directory of the source and the source itself
  must exist, and so must the directory of the target; a directory in the place of the
  target is an error, a file there is replaced.  The entry leaves the listing of its
  directory and joins the listing of the target directory under the new name.  (Renaming
  something that is not a regular file is outside the model and reported as an error.)
\<close>

definition rename :: "path \<Rightarrow> path \<Rightarrow> unit action" where
  "rename src dst w =
     (case locate w (path_parent src) of
        None \<Rightarrow> (Inl (FileNotFoundError (path_name src)), w)
      | Some sd \<Rightarrow>
          (case w_fs w sd of
             None \<Rightarrow> (Inl (FileNotFoundError (path_name src)), w)
           | Some sl \<Rightarrow>
               (case find (\<lambda>f. e_name f = path_name src) sl of
                  None \<Rightarrow> (Inl (FileNotFoundError (path_name src)), w)
                | Some f \<Rightarrow>
                    (case locate w (path_parent dst) of
                       None \<Rightarrow> (Inl (FileNotFoundError (path_name dst)), w)
                     | Some td \<Rightarrow>
                         (case w_fs w td of
                            None \<Rightarrow> (Inl (FileNotFoundError (path_name dst)), w)
                          | Some tl0 \<Rightarrow>
                              if \<not> e_is_file f then (Inl (OSError (path_name src)), w)
                              else if list_ex (\<lambda>g. e_name g = path_name dst \<and> \<not> e_is_file g) tl0
                              then (Inl (OSError (path_name dst)), w)
                              else (let fs1 = (w_fs w)(sd \<mapsto> filter (\<lambda>g. e_name g \<noteq> path_name src) sl);
                                        tl = (case fs1 td of None \<Rightarrow> [] | Some l \<Rightarrow> l)
                                    in (Inr (),
                                        emit (Rename src dst)
                                          (w\<lparr>w_fs := fs1(td \<mapsto>
                                                filter (\<lambda>g. e_name g \<noteq> path_name dst) tl
                                                  @ [f\<lparr>e_name := path_name dst\<rparr>])\<rparr>))))))))"

text \<open>
  \<open>FileOperations.find_and_rename_latest_file\<close>.  The handler \<open>except Exception\<close>
  around the search and the rename prints the error and returns \<open>None\<close>.  The new
  path is \<open>latest_file.parent / new_filename\<close>.
\<close>

definition find_and_rename_latest_file :: "path \<Rightarrow> string \<Rightarrow> nat \<Rightarrow> path option action" where
  "find_and_rename_latest_file download_dir new_name_prefix wait_seconds w =
     (let w1 = emit (Sleep (1000 * wait_seconds)) w;
          (latest_file, w2) = find_latest_file download_dir w1
      in (case latest_file of
            None \<Rightarrow> (Inr None, w2)
          | Some lf \<Rightarrow>
              (let timestamp = strftime (w_now w2);
                   file_extension = path_suffix (path_name lf);
                   new_filename = new_name_prefix @ ''_'' @ timestamp @ file_extension;
                   new_filepath = joinpath (path_parent lf) new_filename
               in (case rename lf new_filepath (others_act download_dir w2) of
                     (Inl e, w3) \<Rightarrow> if is_Exception e then (Inr None, w3) else (Inl e, w3)
                   | (Inr _, w3) \<Rightarrow> (Inr (Some new_filepath), w3)))))"

text \<open>\<open>Path.exists\<close>: a directory, or an entry of its parent directory.\<close>

definition path_exists :: "path \<Rightarrow> world \<Rightarrow> bool" where
  "path_exists p w =
     (locate w p \<noteq> None \<or>
      (case listdir w (path_parent p) of
         None \<Rightarrow> False
       | Some listing \<Rightarrow> list_ex (\<lambda>f. e_name f = path_name p) listing))"


section \<open>Authentication (src/auth/jumpcloud_auth.py)\<close>


















section \<open>Query and export (src/jira/operations.py)\<close>









text \<open>\<open>JiraOperations._handle_downloaded_file\<close>.\<close>

definition handle_downloaded_file :: "settings \<Rightarrow> path action" where
  "handle_downloaded_file s =
     then_do (sleep 15000) (\<lambda>_.
     then_do (find_and_rename_latest_file (DOWNLOADS_FOLDER s) ''Jira_Report'' 15) (\<lambda>renamed_file.
       case renamed_file of
         Some p \<Rightarrow> (\<lambda>w. (Inr p, w))
       | None \<Rightarrow> (\<lambda>w. (Inl (PyException ''Failed to process downloaded file''), w))))"



section \<open>Browser lifetime and the workflow (src/automation/web_driver.py, main.py)\<close>


text \<open>
  \<open>WebDriverManager.close_driver\<close>: nothing happens without a driver; otherwise the
  delay and \<open>quit\<close>.  An exception of \<open>quit\<close> that derives from \<open>Exception\<close> is
  printed and swallowed, any other leaves the function; \<open>self.driver\<close> is reset in the
  \<open>finally\<close> clause either way.  The browser process is gone when \<open>quit\<close> returns.
\<close>

definition close_driver :: "nat \<Rightarrow> unit action" where
  "close_driver delay_seconds w =
     (if w_manager_driver w
      then (case interact (emit Quit (emit (Sleep (1000 * delay_seconds)) w)) of
              (None, w1) \<Rightarrow> (Inr (), w1\<lparr>w_browser := False, w_manager_driver := False\<rparr>)
            | (Some e, w1) \<Rightarrow>
                if is_Exception e then (Inr (), w1\<lparr>w_manager_driver := False\<rparr>)
                else (Inl e, w1\<lparr>w_manager_driver := False\<rparr>))
      else (Inr (), w))"

text \<open>
  \<open>WebDriverManager.__exit__\<close>, \<open>exc_type\<close> telling whether the block raised: the
  driver is closed first, the screenshot is taken under the test
  \<open>exc_type and self.driver\<close>, and a bare \<open>except\<close> swallows whatever it raises.
\<close>

definition manager_exit :: "bool \<Rightarrow> string \<Rightarrow> unit action" where
  "manager_exit exc_type screenshot_path =
     then_do (close_driver 20) (\<lambda>_ w1.
       if exc_type \<and> w_manager_driver w1
       then (Inr (), snd (interact (emit (Screenshot screenshot_path) w1)))
       else (Inr (), w1))"









section \<open>Example inputs\<close>

text \<open>
  A complete configuration, and a world before the run: one browser window, a second
  one (the ticketing application) seen by the next read, and a download directory
  \<open>/downloads\<close> with a finished export and a later, still growing download.  The
  clock shows 2024-01-15 09:30:00, and both files are a few seconds old.
\<close>

definition downloads :: path where
  "downloads = \<lparr>p_absolute = True, p_parts = [''downloads'']\<rparr>"

definition example_settings :: settings where
  "example_settings =
     \<lparr>JUMPCLOUD_EMAIL = Some ''user@example.com'', JUMPCLOUD_PASSWORD = Some ''secret'',
      JIRA_SEARCH_URL = Some ''https://jira.example.com/issues'',
      JQL_QUERY = Some ''project = T2'',
      DOWNLOADS_FOLDER = downloads,
      LOGS_FOLDER = \<lparr>p_absolute = True, p_parts = [''logs'']\<rparr>\<rparr>"

definition settings_no_credentials :: settings where
  "settings_no_credentials =
     example_settings\<lparr>JUMPCLOUD_EMAIL := None, JUMPCLOUD_PASSWORD := Some []\<rparr>"

definition console_window :: window where
  "console_window = \<lparr>handle = ''W1'', title = ''JumpCloud User Console''\<rparr>"

definition jira_window :: window where
  "jira_window = \<lparr>handle = ''W2'', title = ''Jira''\<rparr>"

definition other_window :: window where
  "other_window = \<lparr>handle = ''W3'', title = ''Help''\<rparr>"

definition popup_window :: window where
  "popup_window = \<lparr>handle = ''W4'', title = ''Sign in''\<rparr>"

definition finished_csv :: entry where
  "finished_csv = \<lparr>e_name = ''export.csv'', e_is_file = True, e_mtime = 1705311000000000000\<rparr>"

definition growing_csv :: entry where
  "growing_csv = \<lparr>e_name = ''export (1).csv.crdownload'', e_is_file = True,
                   e_mtime = 1705311005000000000\<rparr>"

definition downloads_dir :: entry where
  "downloads_dir = \<lparr>e_name = ''downloads'', e_is_file = False, e_mtime = 1705000000000000000\<rparr>"

definition sub_dir :: entry where
  "sub_dir = \<lparr>e_name = ''sub'', e_is_file = False, e_mtime = 1705000000000000000\<rparr>"

definition example_world :: world where
  "example_world =
     \<lparr>w_outcomes = [],
      w_windows = [[console_window], [console_window, jira_window]],
      w_patience = (\<lambda>t. 2 * t),
      w_current = ''W1'',
      w_fs = [[] \<mapsto> [downloads_dir], [''downloads''] \<mapsto> [finished_csv, growing_csv]],
      w_cwd = [],
      w_vanish = [],
      w_now = \<lparr>year = 2024, month = 1, day = 15, hour = 9, minute = 30, second = 0\<rparr>,
      w_time = 1705311010000000000,
      w_browser = False, w_manager_driver = False, w_workflow_driver = False,
      w_trace = []\<rparr>"

text \<open>The finished export vanishes between the scan and the rename.\<close>

definition vanished_world :: world where
  "vanished_world = example_world\<lparr>w_vanish := [''export.csv'']\<rparr>"

text \<open>The download directory has a subdirectory \<open>sub\<close>.\<close>

definition subdir_world :: world where
  "subdir_world =
     example_world\<lparr>w_fs := [[] \<mapsto> [downloads_dir],
                              [''downloads''] \<mapsto> [finished_csv, growing_csv, sub_dir],
                              [''downloads'', ''sub''] \<mapsto> []]\<rparr>"

text \<open>
  Two windows are open at the call and no window opens afterwards; and three windows are
  open at the call and a fourth one opens.
\<close>

definition two_windows_world :: world where
  "two_windows_world = example_world\<lparr>w_windows := [[console_window, other_window]]\<rparr>"

definition fourth_window_world :: world where
  "fourth_window_world =
     example_world\<lparr>w_windows := [[console_window, other_window, jira_window],
                                  [console_window, other_window, jira_window, popup_window]]\<rparr>"







section \<open>Evaluating runs\<close>

lemma interact_Cons: "w_outcomes w = r # rest \<Longrightarrow> interact w = (r, w\<lparr>w_outcomes := rest\<rparr>)"
  by (simp add: interact_def)







section \<open>Facts about the string operations\<close>

lemma isspace_lower_char: "isspace (lower_char c) = isspace c"
  unfolding isspace_def lower_char_def Let_def
  by (auto simp: of_char_of)

lemma sublist_dropWhile:
  "\<forall>x\<in>set k. \<not> P x \<Longrightarrow> sublist k xs \<Longrightarrow> sublist k (dropWhile P xs)"
proof (induction xs)
  case Nil
  then show ?case by simp
next
  case (Cons x xs)
  show ?case
  proof (cases "P x")
    case True
    from Cons.prems(2) have "prefix k (x # xs) \<or> sublist k xs"
      by (simp add: sublist_Cons_right)
    then show ?thesis
    proof
      assume "prefix k (x # xs)"
      with True Cons.prems(1) have "k = []"
        by (cases k) auto
      then show ?thesis by simp
    next
      assume "sublist k xs"
      with Cons.IH Cons.prems(1) True show ?thesis by simp
    qed
  next
    case False
    with Cons.prems(2) show ?thesis by simp
  qed
qed

lemma sublist_of_dropWhile: "sublist k (dropWhile P xs) \<Longrightarrow> sublist k xs"
proof -
  assume a: "sublist k (dropWhile P xs)"
  have "suffix (dropWhile P xs) xs" by (rule suffix_dropWhile)
  then have "sublist (dropWhile P xs) xs" by (rule suffix_imp_sublist)
  with a show ?thesis by (rule sublist_order.order_trans)
qed

lemma sublist_dropWhile_iff:
  "\<forall>x\<in>set k. \<not> P x \<Longrightarrow> sublist k (dropWhile P xs) \<longleftrightarrow> sublist k xs"
  using sublist_dropWhile sublist_of_dropWhile by blast

lemma lower_strip: "lower (strip q) = strip (lower q)"
proof -
  have c: "isspace \<circ> lower_char = isspace"
    by (rule ext) (simp add: isspace_lower_char)
  show ?thesis
    unfolding lower_def strip_def
    by (simp add: rev_map dropWhile_map c)
qed

lemma sublist_strip:
  assumes "\<forall>x\<in>set k. \<not> isspace x"
  shows "sublist k (strip q) \<longleftrightarrow> sublist k q"
proof -
  have r: "\<forall>x\<in>set (rev k). \<not> isspace x" using assms by simp
  have "sublist k (strip q) \<longleftrightarrow> sublist (rev k) (dropWhile isspace (rev (dropWhile isspace q)))"
    unfolding strip_def by (metis sublist_rev rev_rev_ident)
  also have "\<dots> \<longleftrightarrow> sublist (rev k) (rev (dropWhile isspace q))"
    using r by (rule sublist_dropWhile_iff)
  also have "\<dots> \<longleftrightarrow> sublist k (dropWhile isspace q)"
    by (rule sublist_rev)
  also have "\<dots> \<longleftrightarrow> sublist k q"
    using assms by (rule sublist_dropWhile_iff)
  finally show ?thesis .
qed

lemma count_list_dropWhile: "\<not> P c \<Longrightarrow> count_list (dropWhile P xs) c = count_list xs c"
  by (induction xs) auto

lemma count_list_strip: "\<not> isspace c \<Longrightarrow> count_list (strip q) c = count_list q c"
  unfolding strip_def by (simp add: count_list_dropWhile)

lemma sublist_map_iff: "sublist k (map f q) \<longleftrightarrow> (\<exists>w. sublist w q \<and> map f w = k)"
proof
  assume "sublist k (map f q)"
  then obtain w where "sublist w q" "k = map f w" using sublist_map_rightE by blast
  then show "\<exists>w. sublist w q \<and> map f w = k" by blast
next
  assume "\<exists>w. sublist w q \<and> map f w = k"
  then show "sublist k (map f q)" using map_mono_sublist by blast
qed

lemma sublist_into_append: "sublist a b \<Longrightarrow> sublist a (p @ b)"
  by (metis append.assoc sublist_def)

lemma sublist_join: "name \<in> set xs \<Longrightarrow> sublist name (join sep xs)"
proof (induction sep xs rule: join.induct)
  case (1 sep)
  then show ?case by simp
next
  case (2 sep x)
  then show ?case by simp
next
  case (3 sep x y ys)
  show ?case
  proof (cases "name = x")
    case True
    then show ?thesis by (simp add: sublist_append_rightI)
  next
    case False
    with 3 have "sublist name (join sep (y # ys))" by simp
    then have "sublist name ((x @ sep) @ join sep (y # ys))" by (rule sublist_into_append)
    then show ?thesis by simp
  qed
qed

section \<open>The click primitive\<close>





section \<open>The download detector\<close>

subsection \<open>Paths, the latest file, and the rename\<close>

lemma max_mtime_in: "max_mtime b fs \<in> set (b # fs)"
  by (induction fs arbitrary: b) auto

lemma max_mtime_mono: "e_mtime b \<le> e_mtime (max_mtime b fs)"
proof (induction fs arbitrary: b)
  case Nil
  then show ?case by simp
next
  case (Cons f fs)
  have "e_mtime b \<le> e_mtime (if e_mtime b < e_mtime f then f else b)" by simp
  also have "\<dots> \<le> e_mtime (max_mtime (if e_mtime b < e_mtime f then f else b) fs)"
    by (rule Cons.IH)
  finally show ?case by simp
qed

lemma max_mtime_ge: "f \<in> set (b # fs) \<Longrightarrow> e_mtime f \<le> e_mtime (max_mtime b fs)"
proof (induction fs arbitrary: b)
  case Nil
  then show ?case by simp
next
  case (Cons g fs)
  let ?b = "if e_mtime b < e_mtime g then g else b"
  from Cons.prems consider "f = b" | "f = g" | "f \<in> set fs" by auto
  then show ?case
  proof cases
    case 1
    have "e_mtime b \<le> e_mtime ?b" by simp
    also have "\<dots> \<le> e_mtime (max_mtime ?b fs)" by (rule max_mtime_mono)
    finally show ?thesis using 1 by simp
  next
    case 2
    have "e_mtime g \<le> e_mtime ?b" by simp
    also have "\<dots> \<le> e_mtime (max_mtime ?b fs)" by (rule max_mtime_mono)
    finally show ?thesis using 2 by simp
  next
    case 3
    then have "f \<in> set (?b # fs)" by simp
    then have "e_mtime f \<le> e_mtime (max_mtime ?b fs)" by (rule Cons.IH)
    then show ?thesis by simp
  qed
qed

lemma path_parent_child: "path_parent (child p nm) = p"
  by (simp add: path_parent_def child_def)

lemma path_name_last: "path_name p = (if p_parts p = [] then [] else last (p_parts p))"
  by (cases "p_parts p") (simp_all add: path_name_def)

lemma path_name_child: "path_name (child p nm) = nm"
  by (simp add: path_name_last child_def)

lemma split_on_plain: "c \<notin> set s \<Longrightarrow> split_on c s = [s]"
  by (induction s) auto

lemma joinpath_plain:
  assumes "CHR ''/'' \<notin> set s" "s \<noteq> []" "s \<noteq> ''.''"
  shows "joinpath p s = child p s"
proof -
  from assms(1) have "split_on (CHR ''/'') s = [s]" by (rule split_on_plain)
  moreover from assms(1,2) have "(case s of [] \<Rightarrow> False | x # _ \<Rightarrow> x = CHR ''/'') = False"
    by (cases s) auto
  ultimately show ?thesis
    using assms(2,3) by (simp add: joinpath_def parse_path_def child_def Let_def)
qed

lemma new_filename_plain:
  assumes "CHR ''/'' \<notin> set name_prefix" "CHR ''/'' \<notin> set ts" "CHR ''/'' \<notin> set ext"
  shows "joinpath p (name_prefix @ ''_'' @ ts @ ext) = child p (name_prefix @ ''_'' @ ts @ ext)"
proof (rule joinpath_plain)
  show "CHR ''/'' \<notin> set (name_prefix @ ''_'' @ ts @ ext)" using assms by simp
  show "name_prefix @ ''_'' @ ts @ ext \<noteq> []" by simp
  show "name_prefix @ ''_'' @ ts @ ext \<noteq> ''.''"
  proof
    assume "name_prefix @ ''_'' @ ts @ ext = ''.''"
    then have "set (name_prefix @ ''_'' @ ts @ ext) = set ''.''" by simp
    then show False by auto
  qed
qed

lemma path_suffix_drop: "path_suffix nm = [] \<or> (\<exists>i. path_suffix nm = drop i nm)"
  by (auto simp: path_suffix_def split: option.splits)

lemma path_suffix_no_slash: "CHR ''/'' \<notin> set nm \<Longrightarrow> CHR ''/'' \<notin> set (path_suffix nm)"
  using path_suffix_drop [of nm] by (auto dest: in_set_dropD)

lemma digit_no_slash: "(n::nat) < 10 \<Longrightarrow> char_of (48 + n) \<noteq> CHR ''/''"
proof
  assume n: "n < 10" and e: "char_of (48 + n) = CHR ''/''"
  from e have "of_char (char_of (48 + n) :: char) = (of_char (CHR ''/'') :: nat)" by simp
  then have "(48 + n) mod 256 = 47" by (simp add: of_char_of)
  with n show False by simp
qed

lemma str_nat_no_slash: "CHR ''/'' \<notin> set (str_nat n)"
proof (induction n rule: str_nat.induct)
  case (1 n)
  show ?case
  proof (cases "n < 10")
    case True
    then show ?thesis using digit_no_slash [of n] by (subst str_nat.simps) auto
  next
    case False
    have "n mod 10 < 10" by simp
    then have "char_of (48 + n mod 10) \<noteq> CHR ''/''" by (rule digit_no_slash)
    with False 1 show ?thesis by (subst str_nat.simps) auto
  qed
qed

lemma strftime_no_slash: "CHR ''/'' \<notin> set (strftime t)"
  by (simp add: strftime_def zfill_def str_nat_no_slash)

lemma resolve_dir_same_dirs:
  "(\<And>k. (fs' k = None) = (fs k = None)) \<Longrightarrow> resolve_dir fs' at cs = resolve_dir fs at cs"
  by (induction cs arbitrary: at) auto

lemma find_distinct:
  "distinct (map f xs) \<Longrightarrow> m \<in> set xs \<Longrightarrow> find (\<lambda>x. f x = f m) xs = Some m"
  by (induction xs) (auto simp: image_iff)

lemma find_latest_file_None:
  "listdir w dir = None \<Longrightarrow> find_latest_file dir w = (None, w)"
  by (simp add: find_latest_file_def)

lemma find_latest_file_empty:
  "listdir w dir = Some listing \<Longrightarrow>
   filter (\<lambda>f. e_is_file f \<and> \<not> endswith (e_name f) ''.crdownload'') listing = [] \<Longrightarrow>
   find_latest_file dir w = (None, emit (ListDir dir) w)"
  by (simp add: find_latest_file_def Let_def del: filter_False)

lemma find_latest_file_Some:
  "listdir w dir = Some listing \<Longrightarrow>
   filter (\<lambda>f. e_is_file f \<and> \<not> endswith (e_name f) ''.crdownload'') listing = c # cs \<Longrightarrow>
   find_latest_file dir w = (Some (child dir (e_name (max_mtime c cs))), emit (ListDir dir) w)"
  by (simp add: find_latest_file_def Let_def)

lemma locate_frame: "w_fs w' = w_fs w \<Longrightarrow> w_cwd w' = w_cwd w \<Longrightarrow> locate w' p = locate w p"
  by (simp add: locate_def)

lemma listdir_emit: "listdir (emit e w) p = listdir w p"
  by (simp add: listdir_def locate_def emit_def split: option.splits)

lemma rename_result:
  "rename src dst w = (r, w') \<Longrightarrow>
   (r = Inr () \<and> w_trace w' = w_trace w @ [Rename src dst]) \<or>
   ((\<exists>e. r = Inl e \<and> is_Exception e) \<and> w' = w)"
  by (auto simp: rename_def emit_def Let_def is_Exception_def split: option.splits if_splits)

lemma others_act_keeps:
  "w_trace (others_act dir w) = w_trace w" "w_now (others_act dir w) = w_now w"
  by (simp_all add: others_act_def split: option.splits)

lemma others_act_idle: "w_vanish w = [] \<Longrightarrow> others_act dir w = w"
  by (auto simp: others_act_def map_upd_triv split: option.splits)

lemma find_and_rename_unfold:
  "find_latest_file dir (emit (Sleep (1000 * wait_seconds)) w) = (Some lf, w2) \<Longrightarrow>
   find_and_rename_latest_file dir name_prefix wait_seconds w =
     (case rename lf (joinpath (path_parent lf)
                        (name_prefix @ ''_'' @ strftime (w_now w2) @ path_suffix (path_name lf)))
             (others_act dir w2) of
        (Inl e, w3) \<Rightarrow> (Inr None, w3)
      | (Inr _, w3) \<Rightarrow>
          (Inr (Some (joinpath (path_parent lf)
                        (name_prefix @ ''_'' @ strftime (w_now w2) @ path_suffix (path_name lf)))), w3))"
proof -
  assume f: "find_latest_file dir (emit (Sleep (1000 * wait_seconds)) w) = (Some lf, w2)"
  let ?new = "joinpath (path_parent lf)
                (name_prefix @ ''_'' @ strftime (w_now w2) @ path_suffix (path_name lf))"
  obtain r w3 where r: "rename lf ?new (others_act dir w2) = (r, w3)"
    by (cases "rename lf ?new (others_act dir w2)") auto
  from rename_result [OF r] have "\<And>e. r = Inl e \<Longrightarrow> is_Exception e" by auto
  with f r show ?thesis
    by (cases r) (simp_all add: find_and_rename_latest_file_def Let_def)
qed

lemma find_and_rename_none:
  "find_latest_file dir (emit (Sleep (1000 * wait_seconds)) w) = (None, w2) \<Longrightarrow>
   find_and_rename_latest_file dir name_prefix wait_seconds w = (Inr None, w2)"
  by (simp add: find_and_rename_latest_file_def Let_def)

lemma rename_succeeds:
  assumes "locate w (path_parent src) = Some d" "locate w (path_parent dst) = Some d"
    "w_fs w d = Some listing" "find (\<lambda>f. e_name f = path_name src) listing = Some f"
    "e_is_file f" "\<not> list_ex (\<lambda>g. e_name g = path_name dst \<and> \<not> e_is_file g) listing"
  shows "rename src dst w =
    (Inr (), emit (Rename src dst)
       (w\<lparr>w_fs := (w_fs w)(d \<mapsto>
            filter (\<lambda>g. e_name g \<noteq> path_name dst) (filter (\<lambda>g. e_name g \<noteq> path_name src) listing)
              @ [f\<lparr>e_name := path_name dst\<rparr>])\<rparr>))"
  using assms by (simp add: rename_def Let_def)

lemma rename_exists:
  assumes r: "rename src dst w = (Inr (), w')"
  shows "path_exists dst w'"
proof -
  from r obtain sd sl f td tl0 where
    sd: "locate w (path_parent src) = Some sd" and sl: "w_fs w sd = Some sl" and
    td: "locate w (path_parent dst) = Some td" and tl0: "w_fs w td = Some tl0"
    by (auto simp: rename_def split: option.splits)
  from r sd sl td tl0 obtain f L where
    fs': "w_fs w' = ((w_fs w)(sd \<mapsto> filter (\<lambda>g. e_name g \<noteq> path_name src) sl))
              (td \<mapsto> L @ [f\<lparr>e_name := path_name dst\<rparr>])"
    and cwd: "w_cwd w' = w_cwd w"
    by (auto simp: rename_def Let_def emit_def split: option.splits if_splits)
  have same: "(w_fs w' k = None) = (w_fs w k = None)" for k
    using sl tl0 by (auto simp: fs')
  have "locate w' (path_parent dst) = locate w (path_parent dst)"
    unfolding locate_def cwd by (rule resolve_dir_same_dirs) (rule same)
  with td have "listdir w' (path_parent dst) = Some (L @ [f\<lparr>e_name := path_name dst\<rparr>])"
    by (simp add: listdir_def fs')
  then show ?thesis by (simp add: path_exists_def list_ex_iff)
qed

lemma find_latest_file_parent:
  assumes "find_latest_file dir w = (Some lf, w2)"
  shows "path_parent lf = dir" "w_now w2 = w_now w" "w2 = emit (ListDir dir) w"
  using assms
  by (auto simp: find_latest_file_def Let_def emit_def path_parent_child
      split: option.splits list.splits)

subsection \<open>The example directory\<close>

lemma digit_0: "char_of (48::nat) = CHR ''0''"
  by code_simp

lemma str_nat_digit: "n < 10 \<Longrightarrow> str_nat n = [char_of (48 + n)]"
  by (simp add: str_nat.simps)

lemma str_nat_step: "10 \<le> n \<Longrightarrow> str_nat n = str_nat (n div 10) @ [char_of (48 + n mod 10)]"
  by (subst str_nat.simps) simp

lemma zfill_2:
  assumes "n < 100"
  shows "zfill 2 (str_nat n) = [char_of (48 + n div 10), char_of (48 + n mod 10)]"
proof (cases "n < 10")
  case True
  then show ?thesis by (simp add: str_nat_digit zfill_def digit_0)
next
  case False
  then have "str_nat n = str_nat (n div 10) @ [char_of (48 + n mod 10)]"
    by (simp add: str_nat_step)
  moreover from assms have "n div 10 < 10" by simp
  ultimately show ?thesis by (simp add: str_nat_digit zfill_def)
qed

lemma zfill_4:
  assumes "1000 \<le> n" "n < 10000"
  shows "zfill 4 (str_nat n) =
    [char_of (48 + n div 1000), char_of (48 + n div 100 mod 10),
     char_of (48 + n div 10 mod 10), char_of (48 + n mod 10)]"
proof -
  have a: "str_nat n = str_nat (n div 10) @ [char_of (48 + n mod 10)]"
    using assms by (simp add: str_nat_step)
  have b: "str_nat (n div 10) = str_nat (n div 100) @ [char_of (48 + n div 10 mod 10)]"
    using assms str_nat_step [of "n div 10"] by (simp add: div_mult2_eq [symmetric])
  have c: "str_nat (n div 100) = str_nat (n div 1000) @ [char_of (48 + n div 100 mod 10)]"
    using assms str_nat_step [of "n div 100"] by (simp add: div_mult2_eq [symmetric])
  have d: "str_nat (n div 1000) = [char_of (48 + n div 1000)]"
    using assms by (simp add: str_nat_digit)
  show ?thesis by (simp add: a b c d zfill_def)
qed

lemma example_timestamp: "strftime (w_now example_world) = ''2024-01-15_09-30-00''"
  by (simp add: example_world_def strftime_def zfill_2 zfill_4 digit_0) code_simp

lemma example_suffix: "path_suffix ''export.csv'' = ''.csv''"
  by (simp add: path_suffix_def)

lemma example_candidates:
  "filter (\<lambda>f. e_is_file f \<and> \<not> endswith (e_name f) ''.crdownload'') [finished_csv, growing_csv]
   = [finished_csv]"
  by code_simp

lemma example_locate:
  assumes "w_fs w = w_fs example_world"
  shows "locate w downloads = Some [''downloads'']"
    and "listdir w downloads = Some [finished_csv, growing_csv]"
  using assms by (simp_all add: listdir_def locate_def downloads_def example_world_def)

lemma example_find:
  assumes "w_fs w = w_fs example_world"
  shows "find_latest_file downloads w =
     (Some (child downloads ''export.csv''), emit (ListDir downloads) w)"
proof -
  have "find_latest_file downloads w =
     (Some (child downloads (e_name (max_mtime finished_csv []))), emit (ListDir downloads) w)"
    using example_locate(2) [OF assms] example_candidates by (rule find_latest_file_Some)
  then show ?thesis by (simp add: finished_csv_def)
qed

lemma example_new_path:
  "joinpath downloads ''Jira_Report_2024-01-15_09-30-00.csv'' =
     child downloads ''Jira_Report_2024-01-15_09-30-00.csv''"
  by (rule joinpath_plain) simp_all

lemma example_find_and_rename:
  assumes "w_fs w = w_fs example_world" "w_vanish w = []" "w_now w = w_now example_world"
  shows "fst (find_and_rename_latest_file downloads ''Jira_Report'' 15 w) =
     Inr (Some (child downloads ''Jira_Report_2024-01-15_09-30-00.csv''))"
    and "path_exists (child downloads ''Jira_Report_2024-01-15_09-30-00.csv'')
           (snd (find_and_rename_latest_file downloads ''Jira_Report'' 15 w))"
proof -
  let ?w1 = "emit (Sleep (1000 * 15)) w"
  let ?w2 = "emit (ListDir downloads) ?w1"
  let ?src = "child downloads ''export.csv''"
  let ?dst = "child downloads ''Jira_Report_2024-01-15_09-30-00.csv''"
  let ?run = "find_and_rename_latest_file downloads ''Jira_Report'' 15 w"
  have f: "find_latest_file downloads ?w1 = (Some ?src, ?w2)"
    using assms(1) by (intro example_find) (simp add: emit_def)
  have n: "joinpath (path_parent ?src)
             (''Jira_Report'' @ ''_'' @ strftime (w_now ?w2) @ path_suffix (path_name ?src)) = ?dst"
    using assms(3)
    by (simp add: emit_def example_timestamp example_suffix path_parent_child path_name_child
        example_new_path)
  have idle: "others_act downloads ?w2 = ?w2"
    using assms(2) by (intro others_act_idle) (simp add: emit_def)
  have fs2: "w_fs ?w2 = w_fs example_world" using assms(1) by (simp add: emit_def)
  have r: "rename ?src ?dst ?w2 =
    (Inr (), emit (Rename ?src ?dst)
       (?w2\<lparr>w_fs := (w_fs ?w2)([''downloads''] \<mapsto>
            filter (\<lambda>g. e_name g \<noteq> path_name ?dst)
              (filter (\<lambda>g. e_name g \<noteq> path_name ?src) [finished_csv, growing_csv])
              @ [finished_csv\<lparr>e_name := path_name ?dst\<rparr>])\<rparr>))"
    using example_locate [OF fs2]
    by (intro rename_succeeds)
       (simp_all add: path_parent_child path_name_child listdir_def finished_csv_def growing_csv_def)
  have run: "?run = (Inr (Some ?dst), snd (rename ?src ?dst ?w2))"
    unfolding find_and_rename_unfold [OF f] n idle using r by simp
  then show "fst ?run = Inr (Some ?dst)" by simp
  have "rename ?src ?dst ?w2 = (Inr (), snd (rename ?src ?dst ?w2))" using r by simp
  then have "path_exists ?dst (snd (rename ?src ?dst ?w2))" by (rule rename_exists)
  with run show "path_exists ?dst (snd ?run)" by simp
qed

lemma handle_downloaded_file_unfold:
  "handle_downloaded_file s w =
     (case find_and_rename_latest_file (DOWNLOADS_FOLDER s) ''Jira_Report'' 15 (emit (Sleep 15000) w) of
        (Inl e, w1) \<Rightarrow> (Inl e, w1)
      | (Inr None, w1) \<Rightarrow> (Inl (PyException ''Failed to process downloaded file''), w1)
      | (Inr (Some p), w1) \<Rightarrow> (Inr p, w1))"
  by (simp add: handle_downloaded_file_def then_do_def sleep_def
      split: prod.splits sum.splits option.splits)

lemma example_handle_downloaded_file:
  assumes "w_fs w = w_fs example_world" "w_vanish w = []" "w_now w = w_now example_world"
  shows "fst (handle_downloaded_file example_settings w) =
     Inr (child downloads ''Jira_Report_2024-01-15_09-30-00.csv'')"
    and "path_exists (child downloads ''Jira_Report_2024-01-15_09-30-00.csv'')
           (snd (handle_downloaded_file example_settings w))"
proof -
  let ?r = "find_and_rename_latest_file downloads ''Jira_Report'' 15 (emit (Sleep 15000) w)"
  have a: "fst ?r = Inr (Some (child downloads ''Jira_Report_2024-01-15_09-30-00.csv''))"
    and b: "path_exists (child downloads ''Jira_Report_2024-01-15_09-30-00.csv'') (snd ?r)"
    using assms by (simp_all add: example_find_and_rename emit_def)
  have d: "DOWNLOADS_FOLDER example_settings = downloads"
    by (simp add: example_settings_def)
  from a obtain w1 where w1: "?r = (Inr (Some (child downloads ''Jira_Report_2024-01-15_09-30-00.csv'')), w1)"
    by (cases ?r) auto
  have h: "handle_downloaded_file example_settings w =
      (Inr (child downloads ''Jira_Report_2024-01-15_09-30-00.csv''), snd ?r)"
    unfolding handle_downloaded_file_unfold d w1 by simp
  from h show "fst (handle_downloaded_file example_settings w) =
     Inr (child downloads ''Jira_Report_2024-01-15_09-30-00.csv'')" by simp
  from h b show "path_exists (child downloads ''Jira_Report_2024-01-15_09-30-00.csv'')
           (snd (handle_downloaded_file example_settings w))" by simp
qed

lemma subdir_locate:
  assumes "w_fs w = w_fs subdir_world"
  shows "locate w downloads = Some [''downloads'']"
    and "listdir w downloads = Some [finished_csv, growing_csv, sub_dir]"
    and "locate w (child downloads ''sub'') = Some [''downloads'', ''sub'']"
  using assms
  by (simp_all add: listdir_def locate_def downloads_def child_def subdir_world_def example_world_def)

lemma subdir_candidates:
  "filter (\<lambda>f. e_is_file f \<and> \<not> endswith (e_name f) ''.crdownload'') [finished_csv, growing_csv, sub_dir]
   = [finished_csv]"
  by code_simp

lemma subdir_join:
  "joinpath downloads ''sub/Jira_Report_2024-01-15_09-30-00.csv'' =
     child (child downloads ''sub'') ''Jira_Report_2024-01-15_09-30-00.csv''"
  by (simp add: joinpath_def parse_path_def child_def downloads_def)

lemma subdir_rename:
  assumes "w_fs w = w_fs subdir_world"
  shows "fst (rename (child downloads ''export.csv'') (child (child downloads ''sub'') nm) w) = Inr ()"
  using subdir_locate(1,3) [OF assms] assms
  by (simp add: rename_def path_parent_child path_name_child Let_def subdir_world_def
      finished_csv_def growing_csv_def sub_dir_def)

lemma vanished_find:
  "find_latest_file downloads (emit (Sleep (1000 * 15)) vanished_world) =
     (Some (child downloads ''export.csv''),
      emit (ListDir downloads) (emit (Sleep (1000 * 15)) vanished_world))"
  by (rule example_find) (simp add: vanished_world_def emit_def)

lemma vanished_rename:
  assumes "w_fs w = w_fs example_world" "w_cwd w = w_cwd example_world" "w_vanish w = [''export.csv'']"
  shows "rename (child downloads ''export.csv'') dst (others_act downloads w) =
   (Inl (FileNotFoundError ''export.csv''), others_act downloads w)"
proof -
  have l: "locate w downloads = Some [''downloads'']"
    and ld: "w_fs w [''downloads''] = Some [finished_csv, growing_csv]"
    using assms(1) by (simp_all add: locate_def downloads_def example_world_def)
  have o: "others_act downloads w =
     w\<lparr>w_fs := (w_fs w)([''downloads''] \<mapsto> [growing_csv]), w_vanish := []\<rparr>"
    using l ld assms(3) by (simp add: others_act_def finished_csv_def growing_csv_def)
  have l2: "locate (others_act downloads w) downloads = Some [''downloads'']"
    unfolding o using assms(1) by (simp add: locate_def downloads_def example_world_def)
  have ws: "w_fs (others_act downloads w) [''downloads''] = Some [growing_csv]"
    unfolding o by simp
  show ?thesis
    using l2 ws
    by (simp add: rename_def path_parent_child path_name_child growing_csv_def)
qed

lemma vanished_rename_step:
  "rename (child downloads ''export.csv'')
     (joinpath (path_parent (child downloads ''export.csv''))
        (''Jira_Report'' @ ''_'' @
         strftime (w_now (emit (ListDir downloads) (emit (Sleep (1000 * 15)) vanished_world))) @
         path_suffix (path_name (child downloads ''export.csv''))))
     (others_act downloads (emit (ListDir downloads) (emit (Sleep (1000 * 15)) vanished_world))) =
   (Inl (FileNotFoundError ''export.csv''),
    others_act downloads (emit (ListDir downloads) (emit (Sleep (1000 * 15)) vanished_world)))"
  by (rule vanished_rename) (simp_all add: vanished_world_def emit_def)

subsection \<open>Selection of the latest finished download\<close>

text \<open>
  C3.  \<open>find_and_rename_latest_file\<close> first sleeps for the grace period and only then
  lists the directory (the trace grows by the sleep, then by the listing).  The
  candidates are the regular files of the listing whose name does not end in
  \<open>.crdownload\<close>.  Without a listing or without candidates the result is \<open>None\<close>
  (no file found) and nothing is renamed.  Otherwise there is a candidate \<open>m\<close> whose
  modification time no candidate exceeds, \<open>find_latest_file\<close> returns its path, and
  the result of \<open>find_and_rename_latest_file\<close> is decided by the rename of exactly that
  file: \<open>None\<close> if the rename fails, the new path if it succeeds.  When nothing interferes
  (no file vanishes, the prefix and the file name contain no slash, the names of the
  listing are distinct, and no directory has the new name), the rename succeeds: the
  result is the new path in the same directory, the last event is the rename of \<open>m\<close>,
  and afterwards the directory lists \<open>m\<close> under its new name.
\<close>

theorem download_detector_selects_latest:
  "(listdir w dir = None \<longrightarrow>
      find_and_rename_latest_file dir name_prefix wait_seconds w =
        (Inr None, w\<lparr>w_trace := w_trace w @ [Sleep (1000 * wait_seconds)]\<rparr>)) \<and>
   (\<forall>listing candidates.
      listdir w dir = Some listing \<and>
      candidates = filter (\<lambda>f. e_is_file f \<and> \<not> endswith (e_name f) ''.crdownload'') listing \<longrightarrow>
      (candidates = [] \<longrightarrow>
         find_and_rename_latest_file dir name_prefix wait_seconds w =
           (Inr None, w\<lparr>w_trace := w_trace w @ [Sleep (1000 * wait_seconds), ListDir dir]\<rparr>)) \<and>
      (candidates \<noteq> [] \<longrightarrow>
         (\<exists>m\<in>set candidates.
            (\<forall>f\<in>set candidates. e_mtime f \<le> e_mtime m) \<and>
            find_latest_file dir (emit (Sleep (1000 * wait_seconds)) w) =
              (Some (child dir (e_name m)),
               w\<lparr>w_trace := w_trace w @ [Sleep (1000 * wait_seconds), ListDir dir]\<rparr>) \<and>
            find_and_rename_latest_file dir name_prefix wait_seconds w =
              (case rename (child dir (e_name m))
                      (joinpath dir (name_prefix @ ''_'' @ strftime (w_now w) @ path_suffix (e_name m)))
                      (others_act dir
                         (w\<lparr>w_trace := w_trace w @ [Sleep (1000 * wait_seconds), ListDir dir]\<rparr>)) of
                 (Inl e, w3) \<Rightarrow> (Inr None, w3)
               | (Inr _, w3) \<Rightarrow>
                   (Inr (Some (joinpath dir
                      (name_prefix @ ''_'' @ strftime (w_now w) @ path_suffix (e_name m)))), w3)) \<and>
            (w_vanish w = [] \<and> CHR ''/'' \<notin> set name_prefix \<and> CHR ''/'' \<notin> set (e_name m) \<and>
             distinct (map e_name listing) \<and> locate w dir \<noteq> None \<and>
             \<not> list_ex (\<lambda>g. e_name g = name_prefix @ ''_'' @ strftime (w_now w) @ path_suffix (e_name m)
                              \<and> \<not> e_is_file g) listing \<longrightarrow>
             fst (find_and_rename_latest_file dir name_prefix wait_seconds w) =
               Inr (Some (child dir
                  (name_prefix @ ''_'' @ strftime (w_now w) @ path_suffix (e_name m)))) \<and>
             w_trace (snd (find_and_rename_latest_file dir name_prefix wait_seconds w)) =
               w_trace w @ [Sleep (1000 * wait_seconds), ListDir dir,
                  Rename (child dir (e_name m))
                    (child dir (name_prefix @ ''_'' @ strftime (w_now w) @ path_suffix (e_name m)))] \<and>
             listdir (snd (find_and_rename_latest_file dir name_prefix wait_seconds w)) dir =
               Some (filter (\<lambda>g. e_name g \<noteq> name_prefix @ ''_'' @ strftime (w_now w) @ path_suffix (e_name m))
                       (filter (\<lambda>g. e_name g \<noteq> e_name m) listing)
                     @ [m\<lparr>e_name := name_prefix @ ''_'' @ strftime (w_now w) @ path_suffix (e_name m)\<rparr>])))))"
proof (intro conjI allI impI)
  assume "listdir w dir = None"
  then have "find_latest_file dir (emit (Sleep (1000 * wait_seconds)) w) =
      (None, emit (Sleep (1000 * wait_seconds)) w)"
    by (intro find_latest_file_None) (simp add: listdir_emit)
  then have "find_and_rename_latest_file dir name_prefix wait_seconds w =
      (Inr None, emit (Sleep (1000 * wait_seconds)) w)"
    by (rule find_and_rename_none)
  then show "find_and_rename_latest_file dir name_prefix wait_seconds w =
        (Inr None, w\<lparr>w_trace := w_trace w @ [Sleep (1000 * wait_seconds)]\<rparr>)"
    by (simp add: emit_def)
next
  fix listing candidates
  assume a: "listdir w dir = Some listing \<and>
      candidates = filter (\<lambda>f. e_is_file f \<and> \<not> endswith (e_name f) ''.crdownload'') listing"
  assume "candidates = []"
  with a have "find_latest_file dir (emit (Sleep (1000 * wait_seconds)) w) =
      (None, emit (ListDir dir) (emit (Sleep (1000 * wait_seconds)) w))"
    by (intro find_latest_file_empty [of _ _ listing]) (simp_all add: listdir_emit)
  then have "find_and_rename_latest_file dir name_prefix wait_seconds w =
      (Inr None, emit (ListDir dir) (emit (Sleep (1000 * wait_seconds)) w))"
    by (rule find_and_rename_none)
  then show "find_and_rename_latest_file dir name_prefix wait_seconds w =
           (Inr None, w\<lparr>w_trace := w_trace w @ [Sleep (1000 * wait_seconds), ListDir dir]\<rparr>)"
    by (simp add: emit_def)
next
  fix listing candidates
  assume a: "listdir w dir = Some listing \<and>
      candidates = filter (\<lambda>f. e_is_file f \<and> \<not> endswith (e_name f) ''.crdownload'') listing"
  assume "candidates \<noteq> []"
  then obtain c cs where cs: "candidates = c # cs" by (cases candidates) auto
  let ?m = "max_mtime c cs"
  let ?w2 = "w\<lparr>w_trace := w_trace w @ [Sleep (1000 * wait_seconds), ListDir dir]\<rparr>"
  let ?lf = "child dir (e_name ?m)"
  let ?nm = "name_prefix @ ''_'' @ strftime (w_now w) @ path_suffix (e_name ?m)"
  let ?new = "joinpath dir ?nm"
  let ?run = "find_and_rename_latest_file dir name_prefix wait_seconds w"
  have m1: "?m \<in> set candidates" unfolding cs by (rule max_mtime_in)
  have m2: "\<forall>f\<in>set candidates. e_mtime f \<le> e_mtime ?m"
    unfolding cs using max_mtime_ge by blast
  from a cs have "find_latest_file dir (emit (Sleep (1000 * wait_seconds)) w) =
      (Some ?lf, emit (ListDir dir) (emit (Sleep (1000 * wait_seconds)) w))"
    by (intro find_latest_file_Some [of _ _ listing]) (simp_all add: listdir_emit)
  then have f: "find_latest_file dir (emit (Sleep (1000 * wait_seconds)) w) = (Some ?lf, ?w2)"
    by (simp add: emit_def)
  have run: "?run =
      (case rename ?lf ?new (others_act dir ?w2) of
         (Inl e, w3) \<Rightarrow> (Inr None, w3)
       | (Inr _, w3) \<Rightarrow> (Inr (Some ?new), w3))"
    using find_and_rename_unfold [OF f, of name_prefix]
    by (simp add: path_parent_child path_name_child split: prod.splits sum.splits)
  have pos: "fst ?run = Inr (Some (child dir ?nm)) \<and>
      w_trace (snd ?run) = w_trace w @ [Sleep (1000 * wait_seconds), ListDir dir,
          Rename ?lf (child dir ?nm)] \<and>
      listdir (snd ?run) dir =
        Some (filter (\<lambda>g. e_name g \<noteq> ?nm) (filter (\<lambda>g. e_name g \<noteq> e_name ?m) listing)
              @ [?m\<lparr>e_name := ?nm\<rparr>])"
    if h: "w_vanish w = [] \<and> CHR ''/'' \<notin> set name_prefix \<and> CHR ''/'' \<notin> set (e_name ?m) \<and>
           distinct (map e_name listing) \<and> locate w dir \<noteq> None \<and>
           \<not> list_ex (\<lambda>g. e_name g = ?nm \<and> \<not> e_is_file g) listing"
  proof -
    from h obtain d where d: "locate w dir = Some d" by auto
    with a have l: "w_fs w d = Some listing" by (simp add: listdir_def)
    have new: "?new = child dir ?nm"
      using h by (intro new_filename_plain strftime_no_slash path_suffix_no_slash) simp_all
    from h have idle: "others_act dir ?w2 = ?w2" by (intro others_act_idle) simp
    from m1 a have mm: "?m \<in> set listing" and isf: "e_is_file ?m" by auto
    from h mm have fnd: "find (\<lambda>f. e_name f = e_name ?m) listing = Some ?m"
      by (intro find_distinct) simp_all
    have "locate ?w2 dir = locate w dir" by (rule locate_frame) simp_all
    with d have d2: "locate ?w2 dir = Some d" by simp
    have r: "rename ?lf (child dir ?nm) ?w2 =
      (Inr (), emit (Rename ?lf (child dir ?nm))
         (?w2\<lparr>w_fs := (w_fs ?w2)(d \<mapsto>
            filter (\<lambda>g. e_name g \<noteq> path_name (child dir ?nm))
              (filter (\<lambda>g. e_name g \<noteq> path_name ?lf) listing)
              @ [?m\<lparr>e_name := path_name (child dir ?nm)\<rparr>])\<rparr>))"
      using d2 l fnd isf h
      by (intro rename_succeeds) (simp_all add: path_parent_child path_name_child)
    let ?w3 = "emit (Rename ?lf (child dir ?nm))
         (?w2\<lparr>w_fs := (w_fs ?w2)(d \<mapsto>
            filter (\<lambda>g. e_name g \<noteq> ?nm) (filter (\<lambda>g. e_name g \<noteq> e_name ?m) listing)
              @ [?m\<lparr>e_name := ?nm\<rparr>])\<rparr>)"
    from r have run': "?run = (Inr (Some (child dir ?nm)), ?w3)"
      unfolding run new idle by (simp add: path_name_child)
    have same: "(w_fs ?w3 k = None) = (w_fs w k = None)" for k
      using l by (auto simp: emit_def)
    have "locate ?w3 dir = locate w dir"
      unfolding locate_def
      using resolve_dir_same_dirs [of "w_fs ?w3" "w_fs w", OF same]
      by (simp add: emit_def)
    with d have "listdir ?w3 dir =
        Some (filter (\<lambda>g. e_name g \<noteq> ?nm) (filter (\<lambda>g. e_name g \<noteq> e_name ?m) listing)
              @ [?m\<lparr>e_name := ?nm\<rparr>])"
      by (simp add: listdir_def emit_def)
    with run' show ?thesis by (simp add: emit_def)
  qed
  from m1 m2 f run pos
  show "\<exists>m\<in>set candidates.
            (\<forall>f\<in>set candidates. e_mtime f \<le> e_mtime m) \<and>
            find_latest_file dir (emit (Sleep (1000 * wait_seconds)) w) =
              (Some (child dir (e_name m)),
               w\<lparr>w_trace := w_trace w @ [Sleep (1000 * wait_seconds), ListDir dir]\<rparr>) \<and>
            find_and_rename_latest_file dir name_prefix wait_seconds w =
              (case rename (child dir (e_name m))
                      (joinpath dir (name_prefix @ ''_'' @ strftime (w_now w) @ path_suffix (e_name m)))
                      (others_act dir
                         (w\<lparr>w_trace := w_trace w @ [Sleep (1000 * wait_seconds), ListDir dir]\<rparr>)) of
                 (Inl e, w3) \<Rightarrow> (Inr None, w3)
               | (Inr _, w3) \<Rightarrow>
                   (Inr (Some (joinpath dir
                      (name_prefix @ ''_'' @ strftime (w_now w) @ path_suffix (e_name m)))), w3)) \<and>
            (w_vanish w = [] \<and> CHR ''/'' \<notin> set name_prefix \<and> CHR ''/'' \<notin> set (e_name m) \<and>
             distinct (map e_name listing) \<and> locate w dir \<noteq> None \<and>
             \<not> list_ex (\<lambda>g. e_name g = name_prefix @ ''_'' @ strftime (w_now w) @ path_suffix (e_name m)
                              \<and> \<not> e_is_file g) listing \<longrightarrow>
             fst (find_and_rename_latest_file dir name_prefix wait_seconds w) =
               Inr (Some (child dir
                  (name_prefix @ ''_'' @ strftime (w_now w) @ path_suffix (e_name m)))) \<and>
             w_trace (snd (find_and_rename_latest_file dir name_prefix wait_seconds w)) =
               w_trace w @ [Sleep (1000 * wait_seconds), ListDir dir,
                  Rename (child dir (e_name m))
                    (child dir (name_prefix @ ''_'' @ strftime (w_now w) @ path_suffix (e_name m)))] \<and>
             listdir (snd (find_and_rename_latest_file dir name_prefix wait_seconds w)) dir =
               Some (filter (\<lambda>g. e_name g \<noteq> name_prefix @ ''_'' @ strftime (w_now w) @ path_suffix (e_name m))
                       (filter (\<lambda>g. e_name g \<noteq> e_name m) listing)
                     @ [m\<lparr>e_name := name_prefix @ ''_'' @ strftime (w_now w) @ path_suffix (e_name m)\<rparr>]))"
    by (intro bexI [of _ ?m]) blast+
qed

theorem download_detector_selects_latest_witness:
  "listdir example_world downloads = Some [finished_csv, growing_csv] \<and>
   filter (\<lambda>f. e_is_file f \<and> \<not> endswith (e_name f) ''.crdownload'') [finished_csv, growing_csv] =
     [finished_csv] \<and>
   e_mtime finished_csv < e_mtime growing_csv \<and>
   fst (find_latest_file downloads (emit (Sleep (1000 * 15)) example_world)) =
     Some (child downloads ''export.csv'') \<and>
   fst (find_and_rename_latest_file downloads ''Jira_Report'' 15 example_world) =
     Inr (Some (child downloads ''Jira_Report_2024-01-15_09-30-00.csv'')) \<and>
   w_trace (snd (find_and_rename_latest_file downloads ''Jira_Report'' 15 example_world)) =
     [Sleep 15000, ListDir downloads,
      Rename (child downloads ''export.csv'')
        (child downloads ''Jira_Report_2024-01-15_09-30-00.csv'')] \<and>
   listdir (snd (find_and_rename_latest_file downloads ''Jira_Report'' 15 example_world)) downloads =
     Some [growing_csv, finished_csv\<lparr>e_name := ''Jira_Report_2024-01-15_09-30-00.csv''\<rparr>] \<and>
   find_and_rename_latest_file (child downloads ''missing'') ''Jira_Report'' 15 example_world =
     (Inr None, example_world\<lparr>w_trace := [Sleep 15000]\<rparr>) \<and>
   find_and_rename_latest_file (child downloads ''sub'') ''Jira_Report'' 15 subdir_world =
     (Inr None, subdir_world\<lparr>w_trace := [Sleep 15000, ListDir (child downloads ''sub'')]\<rparr>)"
proof -
  let ?run = "find_and_rename_latest_file downloads ''Jira_Report'' 15 example_world"
  have l: "listdir example_world downloads = Some [finished_csv, growing_csv]"
    by (rule example_locate) simp
  have c: "[finished_csv] =
      filter (\<lambda>f. e_is_file f \<and> \<not> endswith (e_name f) ''.crdownload'') [finished_csv, growing_csv]"
    unfolding example_candidates ..
  have t: "e_mtime finished_csv < e_mtime growing_csv"
    by (simp add: finished_csv_def growing_csv_def)
  have tr: "w_trace example_world = []" and now: "w_now example_world = w_now example_world"
    by (simp_all add: example_world_def)
  from download_detector_selects_latest
    [of example_world downloads "''Jira_Report''" 15, THEN conjunct2, rule_format, OF conjI, OF l c,
     THEN conjunct2, rule_format]
  obtain m where m: "m \<in> set [finished_csv]"
    and f: "find_latest_file downloads (emit (Sleep (1000 * 15)) example_world) =
              (Some (child downloads (e_name m)),
               example_world\<lparr>w_trace := w_trace example_world @ [Sleep (1000 * 15), ListDir downloads]\<rparr>)"
    and p: "w_vanish example_world = [] \<and> CHR ''/'' \<notin> set ''Jira_Report'' \<and>
             CHR ''/'' \<notin> set (e_name m) \<and>
             distinct (map e_name [finished_csv, growing_csv]) \<and> locate example_world downloads \<noteq> None \<and>
             \<not> list_ex (\<lambda>g. e_name g = ''Jira_Report'' @ ''_'' @ strftime (w_now example_world) @ path_suffix (e_name m)
                              \<and> \<not> e_is_file g) [finished_csv, growing_csv] \<longrightarrow>
             fst ?run =
               Inr (Some (child downloads
                  (''Jira_Report'' @ ''_'' @ strftime (w_now example_world) @ path_suffix (e_name m)))) \<and>
             w_trace (snd ?run) =
               w_trace example_world @ [Sleep (1000 * 15), ListDir downloads,
                  Rename (child downloads (e_name m))
                    (child downloads (''Jira_Report'' @ ''_'' @ strftime (w_now example_world) @ path_suffix (e_name m)))] \<and>
             listdir (snd ?run) downloads =
               Some (filter (\<lambda>g. e_name g \<noteq> ''Jira_Report'' @ ''_'' @ strftime (w_now example_world) @ path_suffix (e_name m))
                       (filter (\<lambda>g. e_name g \<noteq> e_name m) [finished_csv, growing_csv])
                     @ [m\<lparr>e_name := ''Jira_Report'' @ ''_'' @ strftime (w_now example_world) @ path_suffix (e_name m)\<rparr>])"
    by blast
  from m have m': "m = finished_csv" by simp
  have nm: "e_name finished_csv = ''export.csv''" by (simp add: finished_csv_def)
  have loc: "locate example_world downloads \<noteq> None"
    using example_locate(1) [of example_world] by simp
  have pre: "w_vanish example_world = [] \<and> CHR ''/'' \<notin> set ''Jira_Report'' \<and>
             CHR ''/'' \<notin> set (e_name m) \<and>
             distinct (map e_name [finished_csv, growing_csv]) \<and> locate example_world downloads \<noteq> None \<and>
             \<not> list_ex (\<lambda>g. e_name g = ''Jira_Report'' @ ''_'' @ strftime (w_now example_world) @ path_suffix (e_name m)
                              \<and> \<not> e_is_file g) [finished_csv, growing_csv]"
    using loc by (simp add: m' finished_csv_def growing_csv_def) (simp add: example_world_def)
  from p [rule_format, OF pre]
  have r: "fst ?run = Inr (Some (child downloads ''Jira_Report_2024-01-15_09-30-00.csv''))"
    and s: "w_trace (snd ?run) = [Sleep 15000, ListDir downloads,
      Rename (child downloads ''export.csv'')
        (child downloads ''Jira_Report_2024-01-15_09-30-00.csv'')]"
    and k: "listdir (snd ?run) downloads =
     Some [growing_csv, finished_csv\<lparr>e_name := ''Jira_Report_2024-01-15_09-30-00.csv''\<rparr>]"
    by (simp_all add: m' nm tr example_timestamp example_suffix)
       (simp_all add: finished_csv_def growing_csv_def)
  from f have f': "fst (find_latest_file downloads (emit (Sleep (1000 * 15)) example_world)) =
     Some (child downloads ''export.csv'')"
    by (simp add: m' nm)
  have "listdir example_world (child downloads ''missing'') = None"
    by (simp add: listdir_def locate_def downloads_def child_def example_world_def)
  with download_detector_selects_latest
    [of example_world "child downloads ''missing''" "''Jira_Report''" 15, THEN conjunct1]
  have none: "find_and_rename_latest_file (child downloads ''missing'') ''Jira_Report'' 15 example_world =
     (Inr None, example_world\<lparr>w_trace := [Sleep 15000]\<rparr>)"
    by (simp add: tr)
  have ls: "listdir subdir_world (child downloads ''sub'') = Some []"
    by (simp add: listdir_def locate_def downloads_def child_def subdir_world_def example_world_def)
  have trs: "w_trace subdir_world = []" by (simp add: subdir_world_def example_world_def)
  from download_detector_selects_latest
    [of subdir_world "child downloads ''sub''" "''Jira_Report''" 15, THEN conjunct2, rule_format,
     of "[]" "[]", THEN conjunct1] ls
  have empty: "find_and_rename_latest_file (child downloads ''sub'') ''Jira_Report'' 15 subdir_world =
     (Inr None, subdir_world\<lparr>w_trace := [Sleep 15000, ListDir (child downloads ''sub'')]\<rparr>)"
    by (simp add: trs)
  from l c t f' r s k none empty show ?thesis by simp
qed

subsection \<open>The name of the renamed file\<close>

text \<open>
  C4, for a prefix without a path separator.  Whenever \<open>find_and_rename_latest_file\<close>
  returns a path for such a prefix (the selected file being a directory entry, whose name
  has no separator either), that path lies in the download directory, exists there
  afterwards, and its file name is the prefix, an underscore, the clock formatted by
  \<open>strftime\<close> and the suffix of the selected file.  For a clock with a four-digit
  year the format is four digits, two, two, an underscore, and three times two digits,
  separated by hyphens.  With the prefix \<open>Jira_Report\<close> used by
  \<open>_handle_downloaded_file\<close>, the file \<open>export.csv\<close> and the clock at
  2024-01-15 09:30:00 the result is \<open>Jira_Report_2024-01-15_09-30-00.csv\<close>.
\<close>

theorem renamed_artifact_name:
  "(\<forall>lf w2 p w'.
      CHR ''/'' \<notin> set name_prefix \<and>
      find_latest_file dir (emit (Sleep (1000 * wait_seconds)) w) = (Some lf, w2) \<and>
      CHR ''/'' \<notin> set (path_name lf) \<and>
      find_and_rename_latest_file dir name_prefix wait_seconds w = (Inr (Some p), w') \<longrightarrow>
      path_parent p = dir \<and>
      path_name p = name_prefix @ ''_'' @ strftime (w_now w) @ path_suffix (path_name lf) \<and>
      path_exists p w') \<and>
   (1000 \<le> year t \<and> year t < 10000 \<and> month t < 100 \<and> day t < 100 \<and>
    hour t < 100 \<and> minute t < 100 \<and> second t < 100 \<longrightarrow>
      strftime t =
        [char_of (48 + year t div 1000), char_of (48 + year t div 100 mod 10),
         char_of (48 + year t div 10 mod 10), char_of (48 + year t mod 10), CHR ''-'',
         char_of (48 + month t div 10), char_of (48 + month t mod 10), CHR ''-'',
         char_of (48 + day t div 10), char_of (48 + day t mod 10), CHR ''_'',
         char_of (48 + hour t div 10), char_of (48 + hour t mod 10), CHR ''-'',
         char_of (48 + minute t div 10), char_of (48 + minute t mod 10), CHR ''-'',
         char_of (48 + second t div 10), char_of (48 + second t mod 10)]) \<and>
   fst (handle_downloaded_file example_settings example_world) =
     Inr (child downloads ''Jira_Report_2024-01-15_09-30-00.csv'') \<and>
   path_name (child downloads ''Jira_Report_2024-01-15_09-30-00.csv'') =
     ''Jira_Report_2024-01-15_09-30-00.csv''"
proof -
  have A: "\<forall>lf w2 p w'.
      CHR ''/'' \<notin> set name_prefix \<and>
      find_latest_file dir (emit (Sleep (1000 * wait_seconds)) w) = (Some lf, w2) \<and>
      CHR ''/'' \<notin> set (path_name lf) \<and>
      find_and_rename_latest_file dir name_prefix wait_seconds w = (Inr (Some p), w') \<longrightarrow>
      path_parent p = dir \<and>
      path_name p = name_prefix @ ''_'' @ strftime (w_now w) @ path_suffix (path_name lf) \<and>
      path_exists p w'"
  proof (intro allI impI)
    fix lf w2 p w'
    assume a: "CHR ''/'' \<notin> set name_prefix \<and>
        find_latest_file dir (emit (Sleep (1000 * wait_seconds)) w) = (Some lf, w2) \<and>
        CHR ''/'' \<notin> set (path_name lf) \<and>
        find_and_rename_latest_file dir name_prefix wait_seconds w = (Inr (Some p), w')"
    then have f: "find_latest_file dir (emit (Sleep (1000 * wait_seconds)) w) = (Some lf, w2)"
      by simp
    from find_latest_file_parent [OF f] have par: "path_parent lf = dir" and now: "w_now w2 = w_now w"
      by (simp_all add: emit_def)
    let ?nm = "name_prefix @ ''_'' @ strftime (w_now w2) @ path_suffix (path_name lf)"
    have new: "joinpath (path_parent lf) ?nm = child dir ?nm"
      unfolding par using a
      by (intro new_filename_plain strftime_no_slash path_suffix_no_slash) simp_all
    from a have "rename lf (child dir ?nm) (others_act dir w2) = (Inr (), w') \<and> p = child dir ?nm"
      unfolding find_and_rename_unfold [OF f] new
      by (auto split: prod.splits sum.splits)
    then have r: "rename lf (child dir ?nm) (others_act dir w2) = (Inr (), w')"
      and p: "p = child dir ?nm" by simp_all
    from r have "path_exists (child dir ?nm) w'" by (rule rename_exists)
    with p now
    show "path_parent p = dir \<and>
        path_name p = name_prefix @ ''_'' @ strftime (w_now w) @ path_suffix (path_name lf) \<and>
        path_exists p w'"
      by (simp add: path_parent_child path_name_child)
  qed
  have B: "1000 \<le> year t \<and> year t < 10000 \<and> month t < 100 \<and> day t < 100 \<and>
    hour t < 100 \<and> minute t < 100 \<and> second t < 100 \<longrightarrow>
      strftime t =
        [char_of (48 + year t div 1000), char_of (48 + year t div 100 mod 10),
         char_of (48 + year t div 10 mod 10), char_of (48 + year t mod 10), CHR ''-'',
         char_of (48 + month t div 10), char_of (48 + month t mod 10), CHR ''-'',
         char_of (48 + day t div 10), char_of (48 + day t mod 10), CHR ''_'',
         char_of (48 + hour t div 10), char_of (48 + hour t mod 10), CHR ''-'',
         char_of (48 + minute t div 10), char_of (48 + minute t mod 10), CHR ''-'',
         char_of (48 + second t div 10), char_of (48 + second t mod 10)]"
    by (simp add: strftime_def zfill_2 zfill_4)
  have C: "fst (handle_downloaded_file example_settings example_world) =
     Inr (child downloads ''Jira_Report_2024-01-15_09-30-00.csv'')"
    by (rule example_handle_downloaded_file) (simp_all add: example_world_def)
  have D: "path_name (child downloads ''Jira_Report_2024-01-15_09-30-00.csv'') =
     ''Jira_Report_2024-01-15_09-30-00.csv''"
    by (rule path_name_child)
  show ?thesis by (rule conjI [OF A conjI [OF B conjI [OF C D]]])
qed

theorem renamed_artifact_name_witness:
  "CHR ''/'' \<notin> set ''Jira_Report'' \<and>
   fst (find_latest_file downloads (emit (Sleep (1000 * 15)) example_world)) =
     Some (child downloads ''export.csv'') \<and>
   CHR ''/'' \<notin> set (path_name (child downloads ''export.csv'')) \<and>
   (\<exists>p w'. find_and_rename_latest_file downloads ''Jira_Report'' 15 example_world = (Inr (Some p), w') \<and>
      path_parent p = downloads \<and> path_name p = ''Jira_Report_2024-01-15_09-30-00.csv'' \<and>
      path_exists p w') \<and>
   1000 \<le> year (w_now example_world) \<and> year (w_now example_world) < 10000 \<and>
   month (w_now example_world) < 100 \<and> day (w_now example_world) < 100 \<and>
   hour (w_now example_world) < 100 \<and> minute (w_now example_world) < 100 \<and>
   second (w_now example_world) < 100 \<and>
   strftime (w_now example_world) = ''2024-01-15_09-30-00''"
proof -
  let ?r = "find_and_rename_latest_file downloads ''Jira_Report'' 15 example_world"
  let ?lf = "child downloads ''export.csv''"
  let ?w2 = "emit (ListDir downloads) (emit (Sleep (1000 * 15)) example_world)"
  have f: "find_latest_file downloads (emit (Sleep (1000 * 15)) example_world) = (Some ?lf, ?w2)"
    by (rule example_find) (simp add: emit_def)
  have s1: "CHR ''/'' \<notin> set ''Jira_Report''" by simp
  have s2: "CHR ''/'' \<notin> set (path_name ?lf)" by (simp add: path_name_child)
  obtain p w' where r: "?r = (Inr (Some p), w')"
    using example_find_and_rename(1) [of example_world, OF refl _ refl]
    by (cases ?r) (auto simp: example_world_def)
  from renamed_artifact_name
    [of "''Jira_Report''" downloads 15 example_world "w_now example_world",
     THEN conjunct1, rule_format, of ?lf ?w2 p w'] s1 f s2 r
  have "path_parent p = downloads \<and>
      path_name p = ''Jira_Report'' @ ''_'' @ strftime (w_now example_world) @ path_suffix (path_name ?lf) \<and>
      path_exists p w'"
    by blast
  with r have a: "\<exists>p w'. ?r = (Inr (Some p), w') \<and>
      path_parent p = downloads \<and> path_name p = ''Jira_Report_2024-01-15_09-30-00.csv'' \<and>
      path_exists p w'"
    by (intro exI [of _ p] exI [of _ w'])
       (simp add: example_timestamp example_suffix path_name_child)
  have h: "1000 \<le> year (w_now example_world) \<and> year (w_now example_world) < 10000 \<and>
    month (w_now example_world) < 100 \<and> day (w_now example_world) < 100 \<and>
    hour (w_now example_world) < 100 \<and> minute (w_now example_world) < 100 \<and>
    second (w_now example_world) < 100"
    by (simp add: example_world_def)
  have "strftime (w_now example_world) = ''2024-01-15_09-30-00''"
    by (rule example_timestamp)
  with a h s1 s2 f show ?thesis by simp
qed

text \<open>
  C4 as stated, for every prefix, fails: \<open>latest_file.parent / new_filename\<close> reads the
  slashes of the new file name as path separators.  With the prefix \<open>sub/Jira_Report\<close>
  and a subdirectory \<open>sub\<close> in the download directory, the file is moved into
  \<open>sub\<close>, and its name there is \<open>Jira_Report_2024-01-15_09-30-00.csv\<close>, which is
  not the prefix followed by the timestamp and the extension.
\<close>

theorem renamed_artifact_name_counterexample:
  "CHR ''/'' \<in> set ''sub/Jira_Report'' \<and>
   fst (find_latest_file downloads (emit (Sleep (1000 * 15)) subdir_world)) =
     Some (child downloads ''export.csv'') \<and>
   fst (find_and_rename_latest_file downloads ''sub/Jira_Report'' 15 subdir_world) =
     Inr (Some (child (child downloads ''sub'') ''Jira_Report_2024-01-15_09-30-00.csv'')) \<and>
   path_name (child (child downloads ''sub'') ''Jira_Report_2024-01-15_09-30-00.csv'') =
     ''Jira_Report_2024-01-15_09-30-00.csv'' \<and>
   ''Jira_Report_2024-01-15_09-30-00.csv'' \<noteq>
     ''sub/Jira_Report'' @ ''_'' @ strftime (w_now subdir_world) @ path_suffix ''export.csv'' \<and>
   path_parent (child (child downloads ''sub'') ''Jira_Report_2024-01-15_09-30-00.csv'') \<noteq> downloads"
proof -
  let ?w1 = "emit (Sleep (1000 * 15)) subdir_world"
  let ?w2 = "emit (ListDir downloads) ?w1"
  let ?src = "child downloads ''export.csv''"
  let ?dst = "child (child downloads ''sub'') ''Jira_Report_2024-01-15_09-30-00.csv''"
  let ?run = "find_and_rename_latest_file downloads ''sub/Jira_Report'' 15 subdir_world"
  have fs1: "w_fs ?w1 = w_fs subdir_world" and fs2: "w_fs ?w2 = w_fs subdir_world"
    by (simp_all add: emit_def)
  have now: "w_now subdir_world = w_now example_world"
    by (simp add: subdir_world_def)
  have "find_latest_file downloads ?w1 =
     (Some (child downloads (e_name (max_mtime finished_csv []))), ?w2)"
    using subdir_locate(2) [OF fs1] subdir_candidates by (rule find_latest_file_Some)
  then have f: "find_latest_file downloads ?w1 = (Some ?src, ?w2)"
    by (simp add: finished_csv_def)
  have n: "joinpath (path_parent ?src)
             (''sub/Jira_Report'' @ ''_'' @ strftime (w_now ?w2) @ path_suffix (path_name ?src)) = ?dst"
    using subdir_join
    by (simp add: emit_def now example_timestamp example_suffix path_parent_child path_name_child)
  have idle: "others_act downloads ?w2 = ?w2"
    by (intro others_act_idle) (simp add: emit_def subdir_world_def example_world_def)
  have "fst (rename ?src ?dst ?w2) = Inr ()"
    by (rule subdir_rename) (simp add: emit_def)
  then obtain w3 where r: "rename ?src ?dst ?w2 = (Inr (), w3)"
    by (cases "rename ?src ?dst ?w2") auto
  have run: "fst ?run = Inr (Some ?dst)"
    unfolding find_and_rename_unfold [OF f] n idle r by simp
  have ne: "''Jira_Report_2024-01-15_09-30-00.csv'' \<noteq>
     ''sub/Jira_Report'' @ ''_'' @ strftime (w_now subdir_world) @ path_suffix ''export.csv''"
    by (simp add: now example_timestamp example_suffix)
  have pp: "path_parent ?dst \<noteq> downloads"
    by (simp add: path_parent_def child_def downloads_def)
  from f run ne pp show ?thesis by (simp add: path_name_child)
qed

subsection \<open>A failing rename\<close>

text \<open>
  C2, as the code has it.  When the rename of the selected file fails with any exception,
  \<open>find_and_rename_latest_file\<close> catches it and returns \<open>None\<close>, the result it also
  gives when no file is found; the directory is left as it was.  Its caller
  \<open>_handle_downloaded_file\<close> answers \<open>None\<close> with the exception
  "Failed to process downloaded file".
\<close>

theorem rename_failure_returns_none:
  "(\<forall>lf w2 e w3.
      find_latest_file dir (emit (Sleep (1000 * wait_seconds)) w) = (Some lf, w2) \<and>
      rename lf (joinpath (path_parent lf)
                   (name_prefix @ ''_'' @ strftime (w_now w2) @ path_suffix (path_name lf)))
        (others_act dir w2) = (Inl e, w3) \<longrightarrow>
      find_and_rename_latest_file dir name_prefix wait_seconds w = (Inr None, w3) \<and>
      w3 = others_act dir w2) \<and>
   (\<forall>w1. find_and_rename_latest_file (DOWNLOADS_FOLDER s) ''Jira_Report'' 15 (emit (Sleep 15000) w) =
           (Inr None, w1) \<longrightarrow>
      handle_downloaded_file s w = (Inl (PyException ''Failed to process downloaded file''), w1))"
proof (intro conjI allI impI)
  fix lf w2 e w3
  assume a: "find_latest_file dir (emit (Sleep (1000 * wait_seconds)) w) = (Some lf, w2) \<and>
      rename lf (joinpath (path_parent lf)
                   (name_prefix @ ''_'' @ strftime (w_now w2) @ path_suffix (path_name lf)))
        (others_act dir w2) = (Inl e, w3)"
  then have f: "find_latest_file dir (emit (Sleep (1000 * wait_seconds)) w) = (Some lf, w2)"
    by simp
  from a show "find_and_rename_latest_file dir name_prefix wait_seconds w = (Inr None, w3)"
    unfolding find_and_rename_unfold [OF f] by simp
  from a rename_result show "w3 = others_act dir w2"
    by blast
next
  fix w1
  assume "find_and_rename_latest_file (DOWNLOADS_FOLDER s) ''Jira_Report'' 15 (emit (Sleep 15000) w) =
           (Inr None, w1)"
  then show "handle_downloaded_file s w = (Inl (PyException ''Failed to process downloaded file''), w1)"
    unfolding handle_downloaded_file_unfold by simp
qed

theorem rename_failure_returns_none_witness:
  "fst (find_latest_file downloads (emit (Sleep (1000 * 15)) vanished_world)) =
     Some (child downloads ''export.csv'') \<and>
   fst (find_and_rename_latest_file downloads ''Jira_Report'' 15 vanished_world) = Inr None \<and>
   fst (handle_downloaded_file example_settings vanished_world) =
     Inl (PyException ''Failed to process downloaded file'')"
proof -
  let ?w2 = "emit (ListDir downloads) (emit (Sleep (1000 * 15)) vanished_world)"
  let ?lf = "child downloads ''export.csv''"
  have r: "rename ?lf (joinpath (path_parent ?lf)
                  (''Jira_Report'' @ ''_'' @ strftime (w_now ?w2) @ path_suffix (path_name ?lf)))
        (others_act downloads ?w2) = (Inl (FileNotFoundError ''export.csv''), others_act downloads ?w2)"
    by (rule vanished_rename_step)
  from vanished_find r
  have a: "find_and_rename_latest_file downloads ''Jira_Report'' 15 vanished_world =
      (Inr None, others_act downloads ?w2)"
    using rename_failure_returns_none [of downloads 15 vanished_world "''Jira_Report''"]
    by blast
  let ?v = "emit (Sleep 15000) vanished_world"
  let ?v2 = "emit (ListDir downloads) (emit (Sleep (1000 * 15)) ?v)"
  have fv: "find_latest_file downloads (emit (Sleep (1000 * 15)) ?v) = (Some ?lf, ?v2)"
    by (rule example_find) (simp add: vanished_world_def emit_def)
  have rv: "rename ?lf (joinpath (path_parent ?lf)
                  (''Jira_Report'' @ ''_'' @ strftime (w_now ?v2) @ path_suffix (path_name ?lf)))
        (others_act downloads ?v2) = (Inl (FileNotFoundError ''export.csv''), others_act downloads ?v2)"
    by (rule vanished_rename) (simp_all add: vanished_world_def emit_def)
  from fv rv
  have "find_and_rename_latest_file downloads ''Jira_Report'' 15 ?v = (Inr None, others_act downloads ?v2)"
    using rename_failure_returns_none [of downloads 15 ?v "''Jira_Report''"]
    by blast
  then have "find_and_rename_latest_file (DOWNLOADS_FOLDER example_settings) ''Jira_Report'' 15 ?v =
      (Inr None, others_act downloads ?v2)"
    by (simp add: example_settings_def)
  with rename_failure_returns_none [of downloads 15 vanished_world "''Jira_Report''" example_settings,
      THEN conjunct2, rule_format]
  have "handle_downloaded_file example_settings vanished_world =
      (Inl (PyException ''Failed to process downloaded file''), others_act downloads ?v2)"
    by blast
  with a vanished_find show ?thesis by simp
qed

text \<open>
  C2 as stated fails: when the selected file vanishes between the scan and the rename, the
  rename raises \<open>FileNotFoundError\<close>, and \<open>find_and_rename_latest_file\<close> returns
  \<open>None\<close>, not an error.
\<close>

theorem rename_error_swallowed_counterexample:
  "fst (rename (child downloads ''export.csv'')
          (child downloads ''Jira_Report_2024-01-15_09-30-00.csv'')
          (others_act downloads
             (snd (find_latest_file downloads (emit (Sleep (1000 * 15)) vanished_world))))) =
     Inl (FileNotFoundError ''export.csv'') \<and>
   fst (find_and_rename_latest_file downloads ''Jira_Report'' 15 vanished_world) = Inr None"
proof -
  let ?w2 = "emit (ListDir downloads) (emit (Sleep (1000 * 15)) vanished_world)"
  have a: "fst (rename (child downloads ''export.csv'')
          (child downloads ''Jira_Report_2024-01-15_09-30-00.csv'')
          (others_act downloads ?w2)) = Inl (FileNotFoundError ''export.csv'')"
    by (subst vanished_rename) (simp_all add: vanished_world_def emit_def)
  have "find_and_rename_latest_file downloads ''Jira_Report'' 15 vanished_world =
      (Inr None, others_act downloads ?w2)"
    unfolding find_and_rename_unfold [OF vanished_find] vanished_rename_step
    by simp
  with a show ?thesis unfolding vanished_find by simp
qed

section \<open>The query and export steps\<close>












section \<open>The probe for multi-factor authentication\<close>







section \<open>Switching to the new tab\<close>

lemma read_windows_subset:
  assumes "read_windows w = (ws, w1)"
  shows "set (w_windows w1) \<subseteq> set (w_windows w)"
    and "w_windows w \<noteq> [] \<Longrightarrow> ws \<in> set (w_windows w)"
    and "w_windows w = [] \<Longrightarrow> ws = []"
    and "w_trace w1 = w_trace w" and "w_current w1 = w_current w"
    and "w_outcomes w1 = w_outcomes w"
  using assms by (auto simp: read_windows_def split: list.splits)

lemma until_number_of_windows_never:
  assumes "\<forall>ws\<in>set (w_windows w). length ws \<noteq> n" "n \<noteq> 0"
  shows "fst (until_number_of_windows n polls w) = False \<and>
         w_trace (snd (until_number_of_windows n polls w)) = w_trace w \<and>
         w_current (snd (until_number_of_windows n polls w)) = w_current w"
  using assms
proof (induction polls arbitrary: w)
  case 0
  then show ?case by simp
next
  case (Suc polls)
  obtain ws w1 where r: "read_windows w = (ws, w1)" by (cases "read_windows w") auto
  note s = read_windows_subset [OF r]
  have len: "length ws \<noteq> n"
  proof (cases "w_windows w = []")
    case True
    with s(3) Suc.prems(2) show ?thesis by simp
  next
    case False
    with s(2) Suc.prems(1) show ?thesis by blast
  qed
  from s(1) Suc.prems(1) have "\<forall>ws\<in>set (w_windows w1). length ws \<noteq> n" by blast
  from Suc.IH [OF this Suc.prems(2)] len r s(4,5) show ?case by simp
qed

text \<open>
  C7.  \<open>switch_to_new_tab\<close> waits for the number of windows to be exactly two, not
  for a window to open.  Called with two windows open, and no window opening, it returns
  at once, focused on the last of the windows that were already there, and gives the
  title of that window as the title of the new tab.  Called with three windows open, when
  a fourth one opens, it never sees two windows: it raises \<open>TimeoutException\<close> (after
  printing that no new tab opened), and the focus stays where it was.
\<close>

theorem switch_to_new_tab_absolute_count:
  "map length (w_windows two_windows_world) = [2] \<and>
   w_current two_windows_world = ''W1'' \<and>
   switch_to_new_tab 15 two_windows_world =
     (Inr ''Help'',
      two_windows_world\<lparr>w_current := ''W3'', w_trace := [WaitWindows 2 15, SwitchTo ''W3'']\<rparr>) \<and>
   map length (w_windows fourth_window_world) = [3, 4] \<and>
   fst (switch_to_new_tab 15 fourth_window_world) = Inl TimeoutException \<and>
   w_trace (snd (switch_to_new_tab 15 fourth_window_world)) = [WaitWindows 2 15] \<and>
   w_current (snd (switch_to_new_tab 15 fourth_window_world)) = ''W1''"
proof -
  have a: "map length (w_windows two_windows_world) = [2]" "w_current two_windows_world = ''W1''"
    by (simp_all add: two_windows_world_def example_world_def)
  have b: "switch_to_new_tab 15 two_windows_world =
     (Inr ''Help'',
      two_windows_world\<lparr>w_current := ''W3'', w_trace := [WaitWindows 2 15, SwitchTo ''W3'']\<rparr>)"
  proof -
    have u1: "until_number_of_windows 2 (Suc k) (emit (WaitWindows 2 15) two_windows_world) =
        (True, emit (WaitWindows 2 15) two_windows_world)" for k
      by (simp add: read_windows_def emit_def two_windows_world_def example_world_def)
    show ?thesis
      unfolding switch_to_new_tab_def u1
      by (simp add: read_windows_def interact_def emit_def
          two_windows_world_def example_world_def console_window_def other_window_def)
  qed
  have c: "map length (w_windows fourth_window_world) = [3, 4]"
    by (simp add: fourth_window_world_def example_world_def)
  let ?w = "emit (WaitWindows 2 15) fourth_window_world"
  have "\<forall>ws\<in>set (w_windows ?w). length ws \<noteq> 2"
    by (simp add: emit_def fourth_window_world_def example_world_def)
  from until_number_of_windows_never [OF this, of "Suc (w_patience fourth_window_world 15)"]
  have u: "fst (until_number_of_windows 2 (Suc (w_patience fourth_window_world 15)) ?w) = False"
    and v: "w_trace (snd (until_number_of_windows 2 (Suc (w_patience fourth_window_world 15)) ?w)) =
              [WaitWindows 2 15]"
    and x: "w_current (snd (until_number_of_windows 2 (Suc (w_patience fourth_window_world 15)) ?w)) =
              ''W1''"
    by (simp_all add: emit_def fourth_window_world_def example_world_def)
  obtain w1 where r: "until_number_of_windows 2 (Suc (w_patience fourth_window_world 15)) ?w = (False, w1)"
    using u by (cases "until_number_of_windows 2 (Suc (w_patience fourth_window_world 15)) ?w") auto
  have d: "switch_to_new_tab 15 fourth_window_world = (Inl TimeoutException, w1)"
    unfolding switch_to_new_tab_def r by simp
  from v x r have "w_trace w1 = [WaitWindows 2 15]" "w_current w1 = ''W1''" by simp_all
  with a b c d show ?thesis by simp
qed

section \<open>Browser lifetime in the workflow\<close>





































text \<open>
  \<open>WebDriverManager.__exit__\<close> closes the driver before it tests \<open>self.driver\<close>, and
  closing resets that attribute: the branch that takes the screenshot is never entered.
\<close>

lemma manager_exit_never_screenshots: "manager_exit exc_type screenshot_path w = close_driver 20 w"
proof -
  have "\<not> w_manager_driver (snd (close_driver 20 w))"
    by (cases "w_manager_driver w")
       (simp_all add: close_driver_def interact_def emit_def split: list.splits option.splits)
  then show ?thesis
    by (cases "close_driver 20 w") (auto simp: manager_exit_def then_do_def split: sum.splits)
qed












section \<open>Configuration validation\<close>

lemma collect_missing_filter:
  "collect_missing vs acc = acc @ map fst (filter (\<lambda>(name, v). falsy v) vs)"
  by (induction vs arbitrary: acc) auto

text \<open>
  C9.  The validation of the configuration fails if and only if at least one of the four
  required values (e-mail, password, search URL, query) is absent or empty.  The failure
  is the \<open>ValueError\<close> of \<open>validate_credentials\<close>, raised again unchanged by the
  workflow; its message lists, after a fixed prefix and separated by commas, the names
  of all the absent variables in their order, so the name of every absent variable
  occurs in it.
\<close>

theorem validate_credentials_missing:
  "((\<exists>e. validate_configuration s = Inl e) \<longleftrightarrow>
      (falsy (JUMPCLOUD_EMAIL s) \<or> falsy (JUMPCLOUD_PASSWORD s) \<or>
       falsy (JIRA_SEARCH_URL s) \<or> falsy (JQL_QUERY s))) \<and>
   (\<forall>e. validate_configuration s = Inl e \<longrightarrow>
      validate_credentials s = Inl e \<and>
      (\<exists>msg. e = ValueError msg \<and>
         msg = ''Missing required environment variables: '' @
               join '', '' (map fst (filter (\<lambda>(name, v). falsy v) (required_vars s))) \<and>
         (\<forall>(name, v)\<in>set (required_vars s). falsy v \<longrightarrow> sublist name msg)))"
proof -
  let ?missing = "map fst (filter (\<lambda>(name, v). falsy v) (required_vars s))"
  have m: "collect_missing (required_vars s) [] = ?missing"
    by (simp add: collect_missing_filter)
  have c: "validate_credentials s =
      (if ?missing \<noteq> [] then Inl (ValueError (''Missing required environment variables: '' @ join '', '' ?missing))
       else Inr True)"
    unfolding validate_credentials_def m by (simp add: Let_def)
  have e: "?missing \<noteq> [] \<longleftrightarrow>
      (falsy (JUMPCLOUD_EMAIL s) \<or> falsy (JUMPCLOUD_PASSWORD s) \<or>
       falsy (JIRA_SEARCH_URL s) \<or> falsy (JQL_QUERY s))"
    by (simp add: required_vars_def)
  have l: "sublist name (''Missing required environment variables: '' @ join '', '' ?missing)"
    if "(name, v) \<in> set (required_vars s)" "falsy v" for name v
  proof -
    from that have "name \<in> set ?missing" by force
    then have "sublist name (join '', '' ?missing)" by (rule sublist_join)
    then show ?thesis by (rule sublist_into_append)
  qed
  show ?thesis
  proof (cases "?missing = []")
    case True
    with c e show ?thesis by (simp add: validate_configuration_def)
  next
    case False
    with c have "validate_credentials s = Inl (ValueError (''Missing required environment variables: '' @ join '', '' ?missing))"
      by simp
    moreover from this have "validate_configuration s = Inl (ValueError (''Missing required environment variables: '' @ join '', '' ?missing))"
      by (simp add: validate_configuration_def)
    ultimately show ?thesis using e False l by auto
  qed
qed

theorem validate_credentials_missing_witness:
  "validate_configuration settings_no_credentials =
     Inl (ValueError ''Missing required environment variables: JC_USERNAME, JC_PASSWORD'') \<and>
   falsy (JUMPCLOUD_EMAIL settings_no_credentials) \<and>
   sublist ''JC_PASSWORD'' ''Missing required environment variables: JC_USERNAME, JC_PASSWORD''"
proof -
  have v: "validate_configuration settings_no_credentials =
     Inl (ValueError ''Missing required environment variables: JC_USERNAME, JC_PASSWORD'')"
    by (simp add: validate_configuration_def validate_credentials_def required_vars_def
        settings_no_credentials_def example_settings_def falsy_def)
  have f: "falsy (JUMPCLOUD_EMAIL settings_no_credentials)"
    by (simp add: settings_no_credentials_def falsy_def)
  have p: "(''JC_PASSWORD'', Some []) \<in> set (required_vars settings_no_credentials)"
    by (simp add: required_vars_def settings_no_credentials_def)
  have "falsy (Some [])" by (simp add: falsy_def)
  with p v have "sublist ''JC_PASSWORD'' ''Missing required environment variables: JC_USERNAME, JC_PASSWORD''"
    using validate_credentials_missing [of settings_no_credentials] by fastforce
  with v f show ?thesis by blast
qed

section \<open>Query validation\<close>

lemma keywords_lower: "keyword \<in> set jql_keywords \<Longrightarrow> lower keyword = keyword"
  by (auto simp: jql_keywords_def lower_def lower_char_def)

lemma keywords_nospace: "keyword \<in> set jql_keywords \<Longrightarrow> \<forall>x\<in>set keyword. \<not> isspace x"
  by (auto simp: jql_keywords_def isspace_def)

lemma has_keyword_strip:
  "list_ex (\<lambda>keyword. sublist (lower keyword) (lower (strip q))) jql_keywords
     \<longleftrightarrow> (\<exists>keyword\<in>set jql_keywords. sublist keyword (lower q))"
proof -
  have "sublist (lower keyword) (lower (strip q)) \<longleftrightarrow> sublist keyword (lower q)"
    if "keyword \<in> set jql_keywords" for keyword
  proof -
    have "\<forall>x\<in>set keyword. \<not> isspace x" using that by (rule keywords_nospace)
    then have "sublist keyword (strip (lower q)) \<longleftrightarrow> sublist keyword (lower q)"
      by (rule sublist_strip)
    then show ?thesis by (simp add: keywords_lower [OF that] lower_strip)
  qed
  then show ?thesis by (simp add: list_ex_iff)
qed

text \<open>
  C10.  \<open>validate_query_syntax\<close> is a total function to the truth values (it has no
  exceptional result).  It answers \<open>False\<close> for \<open>None\<close> and for every query that is
  empty once stripped.  It answers \<open>True\<close> exactly when the stripped query is not
  empty, some part of the query (a contiguous substring \<open>w\<close>) is one of the seven
  keywords up to the case of its letters, and the numbers of single quotes and of double
  quotes in the query are both even.  (The code counts and searches in the stripped
  query; the whitespace that is stripped holds neither quotes nor letters.)
\<close>

theorem validate_query_syntax_iff:
  "validate_query_syntax None = False \<and>
   (strip q = [] \<longrightarrow> validate_query_syntax (Some q) = False) \<and>
   (validate_query_syntax (Some q) \<longleftrightarrow>
      strip q \<noteq> [] \<and>
      (\<exists>keyword\<in>set jql_keywords. \<exists>w. sublist w q \<and> lower w = keyword) \<and>
      even (count_list q (CHR 0x27)) \<and> even (count_list q (CHR 0x22)))"
proof -
  have sq: "\<not> isspace (CHR 0x27)" and dq: "\<not> isspace (CHR 0x22)"
    by (simp_all add: isspace_def)
  have kw: "(\<exists>keyword\<in>set jql_keywords. \<exists>w. sublist w q \<and> lower w = keyword)
      \<longleftrightarrow> (\<exists>keyword\<in>set jql_keywords. sublist keyword (lower q))"
    unfolding lower_def by (simp add: sublist_map_iff)
  have ne: "strip q \<noteq> [] \<Longrightarrow> q \<noteq> []"
    by (auto simp: strip_def)
  show ?thesis
    unfolding validate_query_syntax_def kw
    using ne
    by (auto simp: Let_def has_keyword_strip count_list_strip [OF sq] count_list_strip [OF dq]
        even_iff_mod_2_eq_zero)
qed

theorem validate_query_syntax_iff_witness:
  "strip ''  '' = [] \<and> validate_query_syntax (Some ''  '') = False \<and>
   validate_query_syntax (Some '' Status = Open '')"
proof -
  have e: "strip ''  '' = []"
    by (simp add: strip_def isspace_def)
  have k: "''status'' \<in> set jql_keywords"
    by (simp add: jql_keywords_def)
  have s: "sublist ''Status'' '' Status = Open ''"
    by code_simp
  have l: "lower ''Status'' = ''status''"
    by code_simp
  have n: "strip '' Status = Open '' \<noteq> []"
    by (simp add: strip_def isspace_def)
  have c: "even (count_list '' Status = Open '' (CHR 0x27))" "even (count_list '' Status = Open '' (CHR 0x22))"
    by simp_all
  from k s l have "\<exists>keyword\<in>set jql_keywords. \<exists>w. sublist w '' Status = Open '' \<and> lower w = keyword"
    by blast
  with n c have "validate_query_syntax (Some '' Status = Open '')"
    using validate_query_syntax_iff [of "'' Status = Open ''"] by blast
  moreover have "validate_query_syntax (Some ''  '') = False"
    using e validate_query_syntax_iff [of "''  ''"] by blast
  ultimately show ?thesis using e by blast
qed

end
